theory Spec2Isabelle
  imports Complex_Main
begin

section \<open>Numbers\<close>

text \<open>
  The program is Python 3. Its integers (\<open>amount\<close>, \<open>mm\<close>, the counters) are unbounded and
  are modelled by \<open>int\<close>.

  The profit or loss of an order, and the two loss totals computed from it, are Python
  floats: IEEE 754 binary64 numbers. A float is modelled by its value: a real number, one
  of the two infinities, or NaN (the sign of zero is not kept: no operation of the source
  tells the two zeros apart). Prices are modelled by exact reals: the source only
  compares an open with a close and moving averages of closes with one another.
\<close>

datatype pyfloat = Finite real | PosInf | NegInf | NaN

text \<open>
  The nearest integer, the even one of the two when \<open>x\<close> lies exactly half way between
  two integers.
\<close>

definition round_half_even :: "real \<Rightarrow> int" where
  "round_half_even x =
     (let f = \<lfloor>x\<rfloor>; d = x - of_int f
      in if d < 1 / 2 then f
         else if 1 / 2 < d then f + 1
         else if even f then f else f + 1)"

text \<open>
  Rounding a real to binary64, to nearest and ties to even: the float that a literal
  denotes and that every arithmetic operation returns for its exact result. Between
  \<open>2 powi e\<close> and \<open>2 powi (e + 1)\<close> the floats are the multiples of \<open>2 powi (e - 52)\<close>,
  the exponent \<open>e\<close> being at least \<open>- 1022\<close>; a result of magnitude \<open>2 ^ 1024\<close> or more is
  an infinity.
\<close>

definition binade :: "real \<Rightarrow> int" where
  "binade x = max \<lfloor>log 2 \<bar>x\<bar>\<rfloor> (- 1022)"

definition fl :: "real \<Rightarrow> pyfloat" where
  "fl x =
     (if x = 0 then Finite 0
      else (let u = 2 powi (binade x - 52);
                y = u * of_int (round_half_even (x / u))
            in if 2 ^ 1024 \<le> \<bar>y\<bar> then (if 0 < x then PosInf else NegInf) else Finite y))"

fun float_add :: "pyfloat \<Rightarrow> pyfloat \<Rightarrow> pyfloat" where
  "float_add (Finite a) (Finite b) = fl (a + b)"
| "float_add (Finite a) PosInf = PosInf"
| "float_add (Finite a) NegInf = NegInf"
| "float_add (Finite a) NaN = NaN"
| "float_add PosInf (Finite b) = PosInf"
| "float_add PosInf PosInf = PosInf"
| "float_add PosInf NegInf = NaN"
| "float_add PosInf NaN = NaN"
| "float_add NegInf (Finite b) = NegInf"
| "float_add NegInf PosInf = NaN"
| "float_add NegInf NegInf = NegInf"
| "float_add NegInf NaN = NaN"
| "float_add NaN b = NaN"

fun float_mul :: "pyfloat \<Rightarrow> pyfloat \<Rightarrow> pyfloat" where
  "float_mul (Finite a) (Finite b) = fl (a * b)"
| "float_mul (Finite a) PosInf = (if a = 0 then NaN else if 0 < a then PosInf else NegInf)"
| "float_mul (Finite a) NegInf = (if a = 0 then NaN else if 0 < a then NegInf else PosInf)"
| "float_mul (Finite a) NaN = NaN"
| "float_mul PosInf (Finite b) = (if b = 0 then NaN else if 0 < b then PosInf else NegInf)"
| "float_mul PosInf PosInf = PosInf"
| "float_mul PosInf NegInf = NegInf"
| "float_mul PosInf NaN = NaN"
| "float_mul NegInf (Finite b) = (if b = 0 then NaN else if 0 < b then NegInf else PosInf)"
| "float_mul NegInf PosInf = NegInf"
| "float_mul NegInf NegInf = PosInf"
| "float_mul NegInf NaN = NaN"
| "float_mul NaN b = NaN"

fun float_abs :: "pyfloat \<Rightarrow> pyfloat" where
  "float_abs (Finite a) = Finite \<bar>a\<bar>"
| "float_abs PosInf = PosInf"
| "float_abs NegInf = PosInf"
| "float_abs NaN = NaN"

text \<open>\<open>a < b\<close> on floats: false as soon as one side is NaN.\<close>

fun float_lt :: "pyfloat \<Rightarrow> pyfloat \<Rightarrow> bool" where
  "float_lt (Finite a) (Finite b) = (a < b)"
| "float_lt (Finite a) PosInf = True"
| "float_lt (Finite a) NegInf = False"
| "float_lt (Finite a) NaN = False"
| "float_lt PosInf b = False"
| "float_lt NegInf (Finite b) = True"
| "float_lt NegInf PosInf = True"
| "float_lt NegInf NegInf = False"
| "float_lt NegInf NaN = False"
| "float_lt NaN b = False"

text \<open>
  Python 3's built-in \<open>round(x)\<close> with one argument: the integer nearest to the float,
  ties to even; it raises \<open>OverflowError\<close> on an infinity and \<open>ValueError\<close> on NaN.
\<close>

datatype py_error = OverflowError | ValueError

fun py_round :: "pyfloat \<Rightarrow> py_error + int" where
  "py_round (Finite x) = Inr (round_half_even x)"
| "py_round PosInf = Inl OverflowError"
| "py_round NegInf = Inl OverflowError"
| "py_round NaN = Inl ValueError"

section \<open>Configuration, log and trader state\<close>

text \<open>The fields of the \<open>Config\<close> object built by \<open>_load_config\<close>, with their declared types.\<close>

record config =
  api_username :: string
  api_password :: string
  start_bet :: int
  max_martingel :: int
  expiration :: int
  api_balance :: string
  select_asset :: string

text \<open>
  One line of \<open>self.logger\<close>: the level and which message of the source it is. Numbers
  interpolated into a message are kept as arguments where a claim could depend on them.
\<close>

datatype level = INFO | ERROR

datatype message =
    Failed_to_fetch_price_data
  | Price_data_is_empty_or_too_short
  | Missing_required_columns
  | Not_enough_valid_data_after_indicators
  | Market_analysis_failed
  | Account_line
  | Order_creation_failed
  | Order_opened
  | Order_processing_error
  | Loss pyfloat
  | Win pyfloat
  | Max_Martingale_reached

text \<open>A call of \<open>self.account.buy(amount, asset, direction, expiration)\<close>.\<close>

record order =
  volume :: int
  asset :: string
  side :: string
  duration :: int

text \<open>
  The attributes of \<open>IQOptionTrader\<close> that the trading loop reads and writes. \<open>logger\<close> is
  the list of lines logged so far and \<open>orders\<close> the calls of \<open>account.buy\<close> made so far.
  \<open>TempLose\<close> and \<open>MaxLose\<close> start as the integer 0 and hold floats once a loss has been
  added.
\<close>

record trader =
  amount :: int
  mm :: int
  direction :: string
  TempLose :: pyfloat
  MaxLose :: pyfloat
  gameWin :: int
  gameLose :: int
  logger :: "(level \<times> message) list"
  orders :: "order list"

definition info :: "message \<Rightarrow> trader \<Rightarrow> trader" where
  "info m s = s\<lparr>logger := logger s @ [(INFO, m)]\<rparr>"

definition error :: "message \<Rightarrow> trader \<Rightarrow> trader" where
  "error m s = s\<lparr>logger := logger s @ [(ERROR, m)]\<rparr>"

text \<open>The state \<open>__init__\<close> leaves (lines 42 to 54), with nothing logged and no order made.\<close>

definition init :: "config \<Rightarrow> trader" where
  "init cfg =
     \<lparr>amount = start_bet cfg, mm = 0, direction = ''call'', TempLose = Finite 0,
      MaxLose = Finite 0, gameWin = 0, gameLose = 0, logger = [], orders = []\<rparr>"

section \<open>The stake controller: \<open>_handle_order_result\<close>\<close>

text \<open>The value of the float nearest to 15/100, which the literal \<open>.15\<close> denotes.\<close>

definition point15 :: real where
  "point15 = 5404319552844595 / 36028797018963968"

text \<open>
  The right-hand side of line 258, \<open>round(abs(win) + abs(win) * .15)\<close>: the product and
  the sum are float operations, \<open>.15\<close> is the float nearest to 15/100, and \<open>round\<close> raises
  when the sum is not finite.
\<close>

definition loss_increment :: "pyfloat \<Rightarrow> py_error + int" where
  "loss_increment win =
     py_round (float_add (float_abs win) (float_mul (float_abs win) (fl (15 / 100))))"

text \<open>
  Lines 257 to 263: the updates of the loss branch before the cap is looked at. The result
  is \<open>Inr\<close> of the state reached, or \<open>Inl\<close> of the exception raised by \<open>round\<close> and the
  state at that point: the loss is logged and nothing else has been assigned.
\<close>

definition loss_rule :: "pyfloat \<Rightarrow> trader \<Rightarrow> (py_error \<times> trader) + trader" where
  "loss_rule win s0 =
     (let s1 = info (Loss win) s0
      in case loss_increment win of
           Inl e \<Rightarrow> Inl (e, s1)
         | Inr k \<Rightarrow>
             (let s2 = s1\<lparr>amount := amount s1 + k\<rparr>;
                  s3 = s2\<lparr>mm := mm s2 + 1\<rparr>;
                  s4 = s3\<lparr>gameLose := gameLose s3 + 1\<rparr>;
                  s5 = s4\<lparr>TempLose := float_add (TempLose s4) win\<rparr>
              in Inr (if float_lt (TempLose s5) (MaxLose s5)
                      then s5\<lparr>MaxLose := TempLose s5\<rparr> else s5)))"

text \<open>Lines 265 to 268: the cap on the martingale depth.\<close>

definition cap_rule :: "config \<Rightarrow> trader \<Rightarrow> trader" where
  "cap_rule cfg s =
     (if mm s > max_martingel cfg
      then (info Max_Martingale_reached s)\<lparr>amount := start_bet cfg, mm := 0\<rparr>
      else s)"

text \<open>Lines 272 to 276: the branch of a result that is not below zero.\<close>

definition win_rule :: "config \<Rightarrow> pyfloat \<Rightarrow> trader \<Rightarrow> trader" where
  "win_rule cfg win s0 =
     (let s1 = info (Win win) s0;
          s2 = s1\<lparr>amount := start_bet cfg\<rparr>;
          s3 = s2\<lparr>mm := 0\<rparr>;
          s4 = s3\<lparr>gameWin := gameWin s3 + 1\<rparr>
      in s4\<lparr>TempLose := Finite 0\<rparr>)"

definition handle_order_result :: "config \<Rightarrow> pyfloat \<Rightarrow> trader \<Rightarrow> (py_error \<times> trader) + trader" where
  "handle_order_result cfg win s =
     (if float_lt win (Finite 0)
      then (case loss_rule win s of
              Inl raised \<Rightarrow> Inl raised
            | Inr s' \<Rightarrow> Inr (cap_rule cfg s'))
      else Inr (win_rule cfg win s))"

text \<open>
  Line 248 under the handler of lines 250 and 251: the state \<open>create_order\<close> leaves once
  \<open>check_win_v3\<close> has answered \<open>win\<close>. An exception of \<open>_handle_order_result\<close> is logged
  and the loop goes on from the state it left.
\<close>

definition settle_order :: "config \<Rightarrow> pyfloat \<Rightarrow> trader \<Rightarrow> trader" where
  "settle_order cfg win s =
     (case handle_order_result cfg win s of
        Inl (e, s') \<Rightarrow> error Order_processing_error s'
      | Inr s' \<Rightarrow> s')"

text \<open>The controller fed the results of successive orders, oldest first.\<close>

fun outcomes :: "config \<Rightarrow> trader \<Rightarrow> pyfloat list \<Rightarrow> trader" where
  "outcomes cfg s [] = s"
| "outcomes cfg s (win # wins) = outcomes cfg (settle_order cfg win s) wins"

section \<open>Market data: \<open>_get_price_data\<close>\<close>

text \<open>
  A candle as \<open>account.get_candles\<close> returns it: a dict from field names to numbers. The
  source reads its keys \<open>open\<close>, \<open>close\<close>, \<open>min\<close>, \<open>max\<close> and \<open>id\<close>.
\<close>

type_synonym candle = "string \<rightharpoonup> real"

text \<open>
  A row of the price table with its four columns. The column \<open>open\<close> is written \<open>open'\<close>,
  the name \<open>open\<close> being taken by the open sets of the library. The table itself is the
  list of its column names and the list of its rows, oldest first.
\<close>

record price_row =
  open' :: real
  close :: real
  low :: real
  high :: real

record frame =
  columns :: "string list"
  rows :: "price_row list"

text \<open>\<open>pd.DataFrame()\<close>: no column and no row.\<close>

definition empty_frame :: frame where
  "empty_frame = \<lparr>columns = [], rows = []\<rparr>"

text \<open>
  The dict built for one candle at lines 137 to 142. \<open>None\<close> stands for the \<open>KeyError\<close> of
  a candle that lacks one of the keys.
\<close>

definition candle_row :: "candle \<Rightarrow> price_row option" where
  "candle_row candle =
     (case candle ''open'' of None \<Rightarrow> None | Some op \<Rightarrow>
      case candle ''close'' of None \<Rightarrow> None | Some cl \<Rightarrow>
      case candle ''min'' of None \<Rightarrow> None | Some mn \<Rightarrow>
      case candle ''max'' of None \<Rightarrow> None | Some mx \<Rightarrow>
        Some \<lparr>open' = op, close = cl, low = mn, high = mx\<rparr>)"

text \<open>
  \<open>_get_price_data\<close>. The argument \<open>response\<close> is what \<open>get_candles\<close> answers in this
  cycle, \<open>None\<close> when the call raises. Every exception of the body is caught at line 152:
  an error is logged and the empty table returned. A table built from an empty list of
  candles has no columns either.
\<close>

definition get_price_data :: "candle list option \<Rightarrow> trader \<Rightarrow> frame \<times> trader" where
  "get_price_data response s =
     (case response of
        None \<Rightarrow> (empty_frame, error Failed_to_fetch_price_data s)
      | Some candles \<Rightarrow>
          (case those (map candle_row candles) of
             None \<Rightarrow> (empty_frame, error Failed_to_fetch_price_data s)
           | Some price_data \<Rightarrow>
               (case those (map (\<lambda>candle. candle ''id'') candles) of
                  None \<Rightarrow> (empty_frame, error Failed_to_fetch_price_data s)
                | Some ids \<Rightarrow>
                    (\<lparr>columns = (if price_data = [] then []
                                  else [''open'', ''close'', ''low'', ''high'']),
                      rows = price_data\<rparr>, s))))"

section \<open>Indicators\<close>

text \<open>
  A column of floats that may hold NaN is a list of \<open>real option\<close>, \<open>None\<close> for NaN:
  arithmetic on NaN gives NaN and every comparison with NaN is false.
\<close>

definition nan_lift :: "(real \<Rightarrow> real \<Rightarrow> real) \<Rightarrow> real option \<Rightarrow> real option \<Rightarrow> real option" where
  "nan_lift f a b =
     (case a of None \<Rightarrow> None | Some x \<Rightarrow> (case b of None \<Rightarrow> None | Some y \<Rightarrow> Some (f x y)))"

definition nan_less :: "real option \<Rightarrow> real option \<Rightarrow> bool" where
  "nan_less a b =
     (case a of None \<Rightarrow> False | Some x \<Rightarrow> (case b of None \<Rightarrow> False | Some y \<Rightarrow> x < y))"

text \<open>
  \<open>rolling(window=w)\<close> followed by an aggregate \<open>f\<close>: row \<open>i\<close> holds \<open>f\<close> of the \<open>w\<close> values
  ending at row \<open>i\<close>, and NaN while fewer than \<open>w\<close> values are there.
\<close>

definition rolling :: "nat \<Rightarrow> (real list \<Rightarrow> real) \<Rightarrow> real list \<Rightarrow> real option list" where
  "rolling w f xs =
     map (\<lambda>i. if i + 1 < w then None else Some (f (take w (drop (i + 1 - w) xs))))
       [0..<length xs]"

definition mean :: "real list \<Rightarrow> real" where
  "mean xs = sum_list xs / real (length xs)"

text \<open>The sample standard deviation, pandas' default (one degree of freedom removed).\<close>

definition std :: "real list \<Rightarrow> real" where
  "std xs = sqrt (sum_list (map (\<lambda>x. (x - mean xs)\<^sup>2) xs) / real (length xs - 1))"

text \<open>
  \<open>ewm(span=n, adjust=False).mean()\<close>: the first value as it is, then
  \<open>y\<^sub>t = (1 - \<alpha>) y\<^sub>t\<^sub>-\<^sub>1 + \<alpha> x\<^sub>t\<close> with \<open>\<alpha> = 2 / (n + 1)\<close>.
\<close>

fun ewm_from :: "real \<Rightarrow> real \<Rightarrow> real list \<Rightarrow> real list" where
  "ewm_from \<alpha> y [] = []"
| "ewm_from \<alpha> y (x # xs) = ((1 - \<alpha>) * y + \<alpha> * x) # ewm_from \<alpha> ((1 - \<alpha>) * y + \<alpha> * x) xs"

definition ewm_mean :: "nat \<Rightarrow> real list \<Rightarrow> real list" where
  "ewm_mean n xs =
     (case xs of [] \<Rightarrow> [] | x # rest \<Rightarrow> x # ewm_from (2 / (real n + 1)) x rest)"

text \<open>A row of the table once lines 170 to 178 have added the indicator columns.\<close>

record table_row = price_row +
  SMA :: "real option"
  STD :: "real option"
  Upper_BB :: "real option"
  Lower_BB :: "real option"
  ema_cross :: real
  ema_trend :: real
  ema_base :: real

definition add_indicators :: "price_row list \<Rightarrow> table_row list" where
  "add_indicators price_data =
     (let closes = map close price_data;
          sma = rolling 20 mean closes;
          sd = rolling 20 std closes;
          upper = map2 (\<lambda>m d. nan_lift (+) m (nan_lift (*) (Some 2) d)) sma sd;
          lower = map2 (\<lambda>m d. nan_lift (-) m (nan_lift (*) (Some 2) d)) sma sd;
          cross = ewm_mean 12 closes;
          trend = ewm_mean 50 closes;
          base = ewm_mean 200 closes
      in map (\<lambda>i. \<lparr>open' = open' (price_data ! i), close = close (price_data ! i),
                    low = low (price_data ! i), high = high (price_data ! i),
                    SMA = sma ! i, STD = sd ! i, Upper_BB = upper ! i, Lower_BB = lower ! i,
                    ema_cross = cross ! i, ema_trend = trend ! i, ema_base = base ! i\<rparr>)
           [0..<length price_data])"

text \<open>\<open>dropna()\<close>: the rows in which no column is NaN, in their order.\<close>

definition dropna :: "table_row list \<Rightarrow> table_row list" where
  "dropna table =
     filter (\<lambda>r. SMA r \<noteq> None \<and> STD r \<noteq> None \<and> Upper_BB r \<noteq> None \<and> Lower_BB r \<noteq> None) table"

section \<open>The decision: \<open>_analyze_market\<close>\<close>

text \<open>\<open>iloc[i]\<close>: a negative index counts from the end; \<open>None\<close> is the \<open>IndexError\<close>.\<close>

definition iloc :: "'a list \<Rightarrow> int \<Rightarrow> 'a option" where
  "iloc xs i =
     (let n = int (length xs); j = (if i < 0 then n + i else i)
      in if 0 \<le> j \<and> j < n then Some (xs ! nat j) else None)"

text \<open>The local variables of lines 185 to 197.\<close>

record locals =
  latest_row :: table_row
  second_last_row :: table_row
  third_last_row :: table_row
  trendUp :: bool
  trendDn :: bool
  priceIn :: bool
  crossOver :: bool
  crossUnder :: bool
  Signal_buy :: bool
  Signal_sell :: bool

definition signals :: "table_row list \<Rightarrow> locals option" where
  "signals price_data =
     (case iloc price_data (- 1) of None \<Rightarrow> None | Some latest \<Rightarrow>
      case iloc price_data (- 2) of None \<Rightarrow> None | Some second_last \<Rightarrow>
      case iloc price_data (- 2) of None \<Rightarrow> None | Some third_last \<Rightarrow>
        (let up = (ema_base second_last < ema_trend second_last
                    \<and> ema_trend second_last < ema_cross second_last);
             dn = (ema_base second_last > ema_trend second_last
                    \<and> ema_trend second_last > ema_cross second_last);
             inside = (nan_less (Lower_BB second_last) (Some (low second_last))
                    \<and> nan_less (Some (high second_last)) (Upper_BB second_last));
             over = (ema_cross third_last < ema_trend third_last
                    \<and> ema_cross second_last > ema_trend second_last);
             under = (ema_cross third_last > ema_trend third_last
                    \<and> ema_cross second_last < ema_trend second_last)
         in Some \<lparr>latest_row = latest, second_last_row = second_last,
                   third_last_row = third_last, trendUp = up, trendDn = dn,
                   priceIn = inside, crossOver = over, crossUnder = under,
                   Signal_buy = (up \<and> inside \<and> over),
                   Signal_sell = (dn \<and> inside \<and> under)\<rparr>))"

text \<open>Lines 202 to 211: what is returned.\<close>

definition decision :: "locals \<Rightarrow> string option" where
  "decision v =
     (if close (latest_row v) > open' (latest_row v) then Some ''call''
      else if close (latest_row v) < open' (latest_row v) then Some ''put''
      else None)"

text \<open>
  \<open>_analyze_market\<close>: the direction, \<open>None\<close> for no signal, and the trader with the lines
  logged. An exception in the body is caught at line 213.
\<close>

definition analyze_market :: "config \<Rightarrow> candle list option \<Rightarrow> trader \<Rightarrow> string option \<times> trader" where
  "analyze_market cfg response s0 =
     (let (price_data, s1) = get_price_data response s0
      in if (rows price_data = [] \<or> columns price_data = []) \<or> length (rows price_data) < 2
         then (None, error Price_data_is_empty_or_too_short s1)
         else if \<not> list_all (\<lambda>col. col \<in> set (columns price_data)) [''low'', ''high'']
         then (None, error Missing_required_columns s1)
         else
           (let table = dropna (add_indicators (rows price_data))
            in if table = [] \<or> length table < 2
               then (None, error Not_enough_valid_data_after_indicators s1)
               else (case signals table of
                       None \<Rightarrow> (None, error Market_analysis_failed s1)
                     | Some v \<Rightarrow> (decision v, s1))))"

section \<open>One cycle of the loop: \<open>create_order\<close>\<close>

text \<open>
  What the account answers during one cycle, \<open>None\<close> where the call raises: the candles,
  the balance, the pair of status and position id of \<open>buy\<close>, and the result of
  \<open>check_win_v3\<close>.
\<close>

record broker =
  get_candles :: "candle list option"
  get_balance :: "real option"
  buy :: "(bool \<times> int) option"
  check_win_v3 :: "pyfloat option"

definition create_order :: "config \<Rightarrow> broker \<Rightarrow> trader \<Rightarrow> trader" where
  "create_order cfg account s0 =
     (let (signal, s1) = analyze_market cfg (get_candles account) s0
      in case signal of
           None \<Rightarrow> s1
         | Some d \<Rightarrow>
             (case get_balance account of
                None \<Rightarrow> error Order_processing_error s1
              | Some balance \<Rightarrow>
                  (let s2 = info Account_line s1;
                       s3 = s2\<lparr>direction := d\<rparr>;
                       s4 = s3\<lparr>orders := orders s3 @
                              [\<lparr>volume = amount s3, asset = select_asset cfg,
                                side = direction s3, duration = expiration cfg\<rparr>]\<rparr>
                   in case buy account of
                        None \<Rightarrow> error Order_processing_error s4
                      | Some (status, position_id) \<Rightarrow>
                          if \<not> status then error Order_creation_failed s4
                          else (let s5 = info Order_opened s4
                                in case check_win_v3 account of
                                     None \<Rightarrow> error Order_processing_error s5
                                   | Some win \<Rightarrow> settle_order cfg win s5))))"

section \<open>The claim's reading of the cross signal, and concrete candle series\<close>

text \<open>
  \<open>crossOver\<close> as the specification words it, to be compared with the field \<open>crossOver\<close>
  of \<open>signals\<close>: the third-last row is the third row from the end when at least three rows
  remain, and the second-last row otherwise.
\<close>

definition crossOver_spec :: "table_row list \<Rightarrow> bool option" where
  "crossOver_spec price_data =
     (case iloc price_data (- 2) of None \<Rightarrow> None | Some second_last \<Rightarrow>
      case (if 3 \<le> length price_data then iloc price_data (- 3) else iloc price_data (- 2)) of
        None \<Rightarrow> None
      | Some third_last \<Rightarrow>
          Some (ema_cross third_last < ema_trend third_last
                \<and> ema_cross second_last > ema_trend second_last))"

text \<open>
  Well-formed candles for concrete runs: the candle number \<open>i\<close> of a series, one minute
  after the one before, with the given open and close, and the row it yields.
\<close>

definition candle_of :: "nat \<Rightarrow> real \<times> real \<Rightarrow> candle" where
  "candle_of i oc =
     [''open'' \<mapsto> fst oc, ''close'' \<mapsto> snd oc, ''min'' \<mapsto> min (fst oc) (snd oc),
      ''max'' \<mapsto> max (fst oc) (snd oc), ''id'' \<mapsto> 60 * real i]"

definition candles_of :: "(real \<times> real) list \<Rightarrow> candle list" where
  "candles_of ocs = map (\<lambda>i. candle_of i (ocs ! i)) [0..<length ocs]"

definition row_of :: "real \<times> real \<Rightarrow> price_row" where
  "row_of oc =
     \<lparr>open' = fst oc, close = snd oc, low = min (fst oc) (snd oc), high = max (fst oc) (snd oc)\<rparr>"

text \<open>Twenty flat candles at 1.2000 and then one candle with the given open and close.\<close>

definition flat_then :: "real \<times> real \<Rightarrow> candle list" where
  "flat_then oc = candles_of (replicate 20 (12 / 10, 12 / 10) @ [oc])"

text \<open>
  Nineteen flat candles at 10, a fall to 9, a rise to 20 and a flat candle at 20: the fast
  average is below the middle one on the row of the fall and above it on the row of the rise.
\<close>

definition cross_series :: "candle list" where
  "cross_series = candles_of (replicate 19 (10, 10) @ [(10, 9), (9, 20), (20, 20)])"

text \<open>The flat series with one more candle that has no \<open>close\<close>.\<close>

definition malformed_series :: "candle list" where
  "malformed_series =
     flat_then (12 / 10, 1205 / 1000)
       @ [[''open'' \<mapsto> 12 / 10, ''min'' \<mapsto> 119 / 100, ''max'' \<mapsto> 121 / 100, ''id'' \<mapsto> 1260]]"

text \<open>A configuration of the given starting stake and depth cap, for concrete runs.\<close>

definition demo_config :: "int \<Rightarrow> int \<Rightarrow> config" where
  "demo_config start cap =
     \<lparr>api_username = ''user'', api_password = ''secret'', start_bet = start,
      max_martingel = cap, expiration = 1, api_balance = ''PRACTICE'',
      select_asset = ''GBPUSD-OTC''\<rparr>"

section \<open>Properties of float rounding\<close>

lemma round_half_even_between:
  "\<lfloor>z\<rfloor> \<le> round_half_even z \<and> round_half_even z \<le> \<lceil>z\<rceil>"
proof -
  have "z - of_int \<lfloor>z\<rfloor> \<ge> 1 / 2 \<Longrightarrow> \<lfloor>z\<rfloor> + 1 \<le> \<lceil>z\<rceil>"
    by linarith
  then show ?thesis
    by (auto simp add: round_half_even_def Let_def not_less)
qed

lemma round_half_even_abs_le: "\<bar>z\<bar> \<le> of_int n \<Longrightarrow> \<bar>round_half_even z\<bar> \<le> n"
  using round_half_even_between [of z]
  by (auto simp: abs_le_iff le_floor_iff ceiling_le_iff) linarith+

lemma round_half_even_ge: "of_int n \<le> z \<Longrightarrow> n \<le> round_half_even z"
  using round_half_even_between [of z] by (meson le_floor_iff order_trans)

lemma round_half_even_nonneg: "0 \<le> z \<Longrightarrow> 0 \<le> round_half_even z"
  using round_half_even_ge [of 0 z] by simp

lemma two_powr_int: "(2::real) powr (real_of_int k) = 2 powi k"
  by (simp add: powr_real_of_int')

lemma two_powr_int_Suc: "(2::real) powr (real_of_int k + 1) = 2 powi (k + 1)"
  using two_powr_int [of "k + 1"] by simp

lemma log2_floor:
  "x \<noteq> 0 \<Longrightarrow> 2 powi \<lfloor>log 2 \<bar>x\<bar>\<rfloor> \<le> \<bar>x\<bar> \<and> \<bar>x\<bar> < 2 powi (\<lfloor>log 2 \<bar>x\<bar>\<rfloor> + 1)"
  using floor_log_eq_powr_iff [of "\<bar>x\<bar>" 2 "\<lfloor>log 2 \<bar>x\<bar>\<rfloor>"]
  by (simp add: two_powr_int two_powr_int_Suc)

lemma log2_floor_eq:
  assumes "2 powi e \<le> \<bar>x\<bar>" and "\<bar>x\<bar> < 2 powi (e + 1)"
  shows "\<lfloor>log 2 \<bar>x\<bar>\<rfloor> = e"
proof -
  have "0 < (2::real) powi e" by simp
  with assms(1) have "0 < \<bar>x\<bar>" by linarith
  then show ?thesis
    using floor_log_eq_powr_iff [of "\<bar>x\<bar>" 2 e] assms
    by (simp add: two_powr_int two_powr_int_Suc)
qed

text \<open>A real of magnitude at most \<open>2 powi k\<close> rounds to a float of magnitude at most \<open>2 powi k\<close>.\<close>

lemma fl_bound:
  assumes "\<bar>x\<bar> \<le> 2 powi k" and "- 1022 \<le> k" and "k \<le> 1023"
  shows "\<exists>v. fl x = Finite v \<and> \<bar>v\<bar> \<le> 2 powi k"
proof (cases "x = 0")
  case True
  then show ?thesis by (simp add: fl_def)
next
  case False
  define e where "e = binade x"
  define u :: real where "u = 2 powi (e - 52)"
  define y where "y = u * of_int (round_half_even (x / u))"
  have upos: "0 < u" by (simp add: u_def)
  have ek: "e \<le> k"
  proof (rule ccontr)
    assume "\<not> e \<le> k"
    with assms(2) have "k + 1 \<le> \<lfloor>log 2 \<bar>x\<bar>\<rfloor>" by (simp add: e_def binade_def)
    then have "(2::real) powi (k + 1) \<le> 2 powi \<lfloor>log 2 \<bar>x\<bar>\<rfloor>"
      by (intro power_int_increasing) simp_all
    also have "\<dots> \<le> \<bar>x\<bar>" using log2_floor [OF False] by simp
    finally have "(2::real) powi (k + 1) \<le> 2 powi k" using assms(1) by linarith
    moreover have "(2::real) powi k < 2 powi (k + 1)"
      by (intro power_int_strict_increasing) simp_all
    ultimately show False by linarith
  qed
  define n :: int where "n = 2 ^ nat (k - e + 52)"
  have nu: "of_int n * u = 2 powi k"
  proof -
    have "of_int n = (2::real) powi (k - e + 52)"
      using ek by (simp add: n_def power_int_def)
    then have "of_int n * u = (2::real) powi ((k - e + 52) + (e - 52))"
      unfolding u_def by (subst power_int_add) simp_all
    then show ?thesis by simp
  qed
  have "\<bar>x / u\<bar> \<le> of_int n"
  proof -
    have "\<bar>x / u\<bar> = \<bar>x\<bar> / u" using upos by simp
    also have "\<dots> \<le> 2 powi k / u" using assms(1) upos by (simp add: divide_right_mono)
    also have "\<dots> = of_int n" using nu upos by (simp add: field_simps)
    finally show ?thesis .
  qed
  then have "\<bar>round_half_even (x / u)\<bar> \<le> n" by (rule round_half_even_abs_le)
  then have "\<bar>of_int (round_half_even (x / u)) :: real\<bar> \<le> of_int n"
    by (metis of_int_abs of_int_le_iff)
  then have "\<bar>y\<bar> \<le> u * of_int n"
    unfolding y_def using upos by (simp add: abs_mult)
  then have yk: "\<bar>y\<bar> \<le> 2 powi k" using nu by (simp add: mult.commute)
  have "(2::real) powi k \<le> 2 powi 1023"
    using assms(3) by (intro power_int_increasing) simp_all
  also have "\<dots> < (2::real) ^ 1024" by simp
  finally have "\<bar>y\<bar> < 2 ^ 1024" using yk by linarith
  then have "fl x = Finite y"
    using False by (simp add: fl_def Let_def e_def [symmetric] u_def [symmetric] y_def [symmetric])
  with yk show ?thesis by blast
qed

text \<open>The float of a real whose binade is known.\<close>

lemma fl_eval:
  assumes "2 powi e \<le> \<bar>x\<bar>" and "\<bar>x\<bar> < 2 powi (e + 1)" and "- 1022 \<le> e" and "e \<le> 1022"
  shows "fl x = Finite (2 powi (e - 52) * of_int (round_half_even (x / 2 powi (e - 52))))"
proof -
  have "0 < (2::real) powi e" by simp
  with assms(1) have "0 < \<bar>x\<bar>" by linarith
  then have nz: "x \<noteq> 0" by auto
  have b: "binade x = e"
    using log2_floor_eq [OF assms(1,2)] assms(3) by (simp add: binade_def)
  from fl_bound [of x "e + 1"] assms obtain v where v: "fl x = Finite v" by auto
  then show ?thesis
    using nz by (auto simp add: fl_def Let_def b split: if_splits)
qed

lemma fl_nonneg:
  assumes "0 \<le> x"
  shows "fl x = PosInf \<or> (\<exists>v. fl x = Finite v \<and> 0 \<le> v)"
proof -
  have "0 \<le> round_half_even (x / 2 powi (binade x - 52))"
    using assms by (intro round_half_even_nonneg) simp
  then have "0 \<le> (2::real) powi (binade x - 52)
      * of_int (round_half_even (x / 2 powi (binade x - 52)))"
    by simp
  then show ?thesis
    using assms by (auto simp add: fl_def Let_def)
qed

lemma fl_ge_one:
  assumes "1 \<le> x"
  shows "fl x = PosInf \<or> (\<exists>v. fl x = Finite v \<and> 1 \<le> v)"
proof -
  from assms have nz: "x \<noteq> 0" and ax: "\<bar>x\<bar> = x" by simp_all
  have "0 \<le> log 2 x" using assms by simp
  then have l0: "0 \<le> \<lfloor>log 2 \<bar>x\<bar>\<rfloor>" by (simp add: ax)
  then have b: "binade x = \<lfloor>log 2 \<bar>x\<bar>\<rfloor>" by (simp add: binade_def)
  define e where "e = binade x"
  define u :: real where "u = 2 powi (e - 52)"
  have upos: "0 < u" by (simp add: u_def)
  have e0: "0 \<le> e" using l0 b by (simp add: e_def)
  have ex: "2 powi e \<le> x" using log2_floor [OF nz] b ax by (simp add: e_def)
  have eu: "(2::real) powi e = 2 powi 52 * u"
    unfolding u_def by (subst power_int_add [symmetric]) simp_all
  then have "of_int (2 ^ 52) \<le> x / u"
    using ex upos by (simp add: field_simps)
  then have "2 ^ 52 \<le> round_half_even (x / u)" by (rule round_half_even_ge)
  then have "of_int (2 ^ 52) \<le> (of_int (round_half_even (x / u)) :: real)"
    by (simp only: of_int_le_iff)
  then have "of_int (2 ^ 52) * u \<le> of_int (round_half_even (x / u)) * u"
    using upos by (intro mult_right_mono) simp_all
  then have "2 powi e \<le> u * of_int (round_half_even (x / u))"
    using eu by (simp add: mult.commute)
  moreover have "1 \<le> (2::real) powi e"
    using e0 by (simp add: power_int_def)
  ultimately have "1 \<le> u * of_int (round_half_even (x / u))"
    by linarith
  then show ?thesis
    using nz assms by (auto simp add: fl_def Let_def e_def [symmetric] u_def [symmetric])
qed

text \<open>The float of the literal \<open>.15\<close>.\<close>

lemma fl_15: "fl (15 / 100) = Finite point15"
  unfolding point15_def
  by (subst fl_eval [of "- 3"]) (simp_all add: round_half_even_def power_int_minus)

lemma point15_bounds: "0 < point15" "point15 \<le> 1"
  by (simp_all add: point15_def)

section \<open>Properties of the increment of line 258\<close>

lemma loss_increment_alt:
  "loss_increment win =
     py_round (float_add (float_abs win) (float_mul (float_abs win) (Finite point15)))"
  by (simp only: loss_increment_def fl_15)

lemma loss_increment_not_finite:
  "loss_increment PosInf = Inl OverflowError"
  "loss_increment NegInf = Inl OverflowError"
  "loss_increment NaN = Inl ValueError"
  using point15_bounds(1) by (simp_all add: loss_increment_alt)

lemma loss_increment_eval:
  assumes "fl (\<bar>w\<bar> * point15) = Finite p" and "fl (\<bar>w\<bar> + p) = Finite v"
  shows "loss_increment (Finite w) = Inr (round_half_even v)"
  by (simp add: loss_increment_alt assms)

lemma loss_increment_overflow:
  "fl (\<bar>w\<bar> * point15) = PosInf \<Longrightarrow> loss_increment (Finite w) = Inl OverflowError"
  "fl (\<bar>w\<bar> * point15) = Finite p \<Longrightarrow> fl (\<bar>w\<bar> + p) = PosInf
     \<Longrightarrow> loss_increment (Finite w) = Inl OverflowError"
  by (simp_all add: loss_increment_alt)

text \<open>The increment is never negative, whatever float comes in.\<close>

lemma loss_increment_nonneg:
  "(\<exists>e. loss_increment win = Inl e) \<or> (\<exists>k. loss_increment win = Inr k \<and> 0 \<le> k)"
proof (cases win)
  case (Finite w)
  have "0 \<le> \<bar>w\<bar> * point15" using point15_bounds(1) by simp
  from fl_nonneg [OF this]
  consider "fl (\<bar>w\<bar> * point15) = PosInf"
    | p where "fl (\<bar>w\<bar> * point15) = Finite p" and "0 \<le> p"
    by auto
  then show ?thesis
  proof cases
    case 1
    then show ?thesis by (simp add: Finite loss_increment_overflow(1))
  next
    case 2
    from fl_nonneg [of "\<bar>w\<bar> + p"] 2(2)
    consider "fl (\<bar>w\<bar> + p) = PosInf" | v where "fl (\<bar>w\<bar> + p) = Finite v" and "0 \<le> v"
      by auto
    then show ?thesis
    proof cases
      case 1
      then show ?thesis by (simp add: Finite loss_increment_overflow(2) [OF 2(1)])
    next
      case 3: 2
      then show ?thesis
        using loss_increment_eval [OF 2(1) 3(1)]
        by (simp add: Finite round_half_even_nonneg)
    qed
  qed
qed (simp_all add: loss_increment_not_finite)

text \<open>A loss of at least 1 adds at least 1.\<close>

lemma loss_increment_pos:
  assumes "float_lt win (Finite 0)" and "\<not> float_lt (Finite (- 1)) win"
  shows "(\<exists>e. loss_increment win = Inl e) \<or> (\<exists>k. loss_increment win = Inr k \<and> 1 \<le> k)"
proof (cases win)
  case (Finite w)
  with assms have w1: "1 \<le> \<bar>w\<bar>" by simp
  have "0 \<le> \<bar>w\<bar> * point15" using point15_bounds(1) by simp
  from fl_nonneg [OF this]
  consider "fl (\<bar>w\<bar> * point15) = PosInf"
    | p where "fl (\<bar>w\<bar> * point15) = Finite p" and "0 \<le> p"
    by auto
  then show ?thesis
  proof cases
    case 1
    then show ?thesis by (simp add: Finite loss_increment_overflow(1))
  next
    case 2
    from fl_ge_one [of "\<bar>w\<bar> + p"] 2(2) w1
    consider "fl (\<bar>w\<bar> + p) = PosInf" | v where "fl (\<bar>w\<bar> + p) = Finite v" and "1 \<le> v"
      by auto
    then show ?thesis
    proof cases
      case 1
      then show ?thesis by (simp add: Finite loss_increment_overflow(2) [OF 2(1)])
    next
      case 3: 2
      from 3(2) have "1 \<le> round_half_even v"
        using round_half_even_ge [of 1 v] by simp
      then show ?thesis
        using loss_increment_eval [OF 2(1) 3(1)] by (simp add: Finite)
    qed
  qed
qed (simp_all add: loss_increment_not_finite)

text \<open>
  The sum of line 258 stays finite, so that \<open>round\<close> does not raise, for every loss of
  magnitude at most \<open>2 powi 1021\<close> (about 2.2e307).
\<close>

lemma loss_increment_defined:
  assumes "\<bar>w\<bar> \<le> 2 powi 1021"
  shows "\<exists>k. loss_increment (Finite w) = Inr k"
proof -
  have "\<bar>w\<bar> * point15 \<le> \<bar>w\<bar> * 1"
    using point15_bounds(2) by (intro mult_left_mono) simp_all
  moreover have "0 \<le> \<bar>w\<bar> * point15" using point15_bounds(1) by simp
  ultimately have "\<bar>\<bar>w\<bar> * point15\<bar> \<le> 2 powi 1021" using assms by simp
  from fl_bound [OF this] obtain p
    where p: "fl (\<bar>w\<bar> * point15) = Finite p" and pb: "\<bar>p\<bar> \<le> 2 powi 1021" by auto
  have "(2::real) powi 1022 = 2 powi 1021 + 2 powi 1021"
    by simp
  with assms pb have "\<bar>\<bar>w\<bar> + p\<bar> \<le> 2 powi 1022" by linarith
  from fl_bound [OF this] obtain v where v: "fl (\<bar>w\<bar> + p) = Finite v" by auto
  from loss_increment_eval [OF p v] show ?thesis by blast
qed

text \<open>The increment at the losses of the concrete runs below.\<close>

lemma loss_increment_5: "loss_increment (Finite (- 5)) = Inr 6"
proof -
  have p: "fl (\<bar>- 5\<bar> * point15) = Finite (3 / 4)"
    by (subst fl_eval [of "- 1"]) (simp_all add: point15_def round_half_even_def power_int_minus)
  have v: "fl (\<bar>- 5\<bar> + 3 / 4) = Finite (23 / 4)"
    by (subst fl_eval [of 2]) (simp_all add: point15_def round_half_even_def power_int_minus)
  from loss_increment_eval [OF p v] show ?thesis by (simp add: round_half_even_def)
qed

lemma loss_increment_10: "loss_increment (Finite (- 10)) = Inr 12"
proof -
  have p: "fl (\<bar>- 10\<bar> * point15) = Finite (3 / 2)"
    by (subst fl_eval [of 0]) (simp_all add: point15_def round_half_even_def power_int_minus)
  have v: "fl (\<bar>- 10\<bar> + 3 / 2) = Finite (23 / 2)"
    by (subst fl_eval [of 3]) (simp_all add: point15_def round_half_even_def power_int_minus)
  from loss_increment_eval [OF p v] show ?thesis by (simp add: round_half_even_def)
qed

lemma loss_increment_70: "loss_increment (Finite (- 70)) = Inr 80"
proof -
  have p: "fl (\<bar>- 70\<bar> * point15) = Finite (21 / 2)"
    by (subst fl_eval [of 3]) (simp_all add: point15_def round_half_even_def power_int_minus)
  have v: "fl (\<bar>- 70\<bar> + 21 / 2) = Finite (161 / 2)"
    by (subst fl_eval [of 6]) (simp_all add: point15_def round_half_even_def power_int_minus)
  from loss_increment_eval [OF p v] show ?thesis by (simp add: round_half_even_def)
qed

lemma loss_increment_11_5: "loss_increment (Finite (- (23 / 2))) = Inr 13"
proof -
  have p: "fl (\<bar>- (23 / 2)\<bar> * point15)
      = Finite (7768709357214105 / 4503599627370496)"
    by (subst fl_eval [of 0]) (simp_all add: point15_def round_half_even_def power_int_minus)
  have v: "fl (\<bar>- (23 / 2)\<bar> + 7768709357214105 / 4503599627370496)
      = Finite (7445013133996851 / 562949953421312)"
    by (subst fl_eval [of 3]) (simp_all add: point15_def round_half_even_def power_int_minus)
  from loss_increment_eval [OF p v] show ?thesis by (simp add: round_half_even_def)
qed

text \<open>The floats of the literals \<open>13.225\<close> and \<open>0.1\<close>, negated.\<close>

lemma fl_13_225: "fl (- (13225 / 1000)) = Finite (- (7445013133996851 / 562949953421312))"
  by (subst fl_eval [of 3]) (simp_all add: point15_def round_half_even_def power_int_minus)

lemma fl_0_1: "fl (- (1 / 10)) = Finite (- (3602879701896397 / 36028797018963968))"
  by (subst fl_eval [of "- 4"]) (simp_all add: point15_def round_half_even_def power_int_minus)

lemma loss_increment_13_225: "loss_increment (fl (- (13225 / 1000))) = Inr 15"
proof -
  have p: "fl (\<bar>- (7445013133996851 / 562949953421312)\<bar> * point15)
      = Finite (8934015760796221 / 4503599627370496)"
    by (subst fl_eval [of 0]) (simp_all add: point15_def round_half_even_def power_int_minus)
  have v: "fl (\<bar>- (7445013133996851 / 562949953421312)\<bar> + 8934015760796221 / 4503599627370496)
      = Finite (8561765104096379 / 562949953421312)"
    by (subst fl_eval [of 3]) (simp_all add: point15_def round_half_even_def power_int_minus)
  from loss_increment_eval [OF p v] show ?thesis
    unfolding fl_13_225 by (simp add: round_half_even_def)
qed

lemma loss_increment_0_1: "loss_increment (fl (- (1 / 10))) = Inr 0"
proof -
  have p: "fl (\<bar>- (3602879701896397 / 36028797018963968)\<bar> * point15)
      = Finite (1080863910568919 / 72057594037927936)"
    by (subst fl_eval [of "- 7"]) (simp_all add: point15_def round_half_even_def power_int_minus)
  have v: "fl (\<bar>- (3602879701896397 / 36028797018963968)\<bar> + 1080863910568919 / 72057594037927936)
      = Finite (8286623314361713 / 72057594037927936)"
    by (subst fl_eval [of "- 4"]) (simp_all add: point15_def round_half_even_def power_int_minus)
  from loss_increment_eval [OF p v] show ?thesis
    unfolding fl_0_1 by (simp add: round_half_even_def)
qed

text \<open>
  Two losses at which float and exact arithmetic part: the float sum is exactly 5.5, and
  exactly 0.5, where the exact sums lie just below and just above. The increments are
  those of the float sums, the even neighbours 6 and 0.
\<close>

lemma loss_increment_ties:
  "loss_increment (Finite (- (2692369342449753 / 562949953421312))) = Inr 6
   \<and> loss_increment (Finite (- (3916173589017823 / 9007199254740992))) = Inr 0"
proof -
  have p: "fl (\<bar>- (2692369342449753 / 562949953421312)\<bar> * point15)
      = Finite (6461686421879407 / 9007199254740992)"
    by (subst fl_eval [of "- 1"]) (simp_all add: point15_def round_half_even_def power_int_minus)
  have v: "fl (\<bar>- (2692369342449753 / 562949953421312)\<bar> + 6461686421879407 / 9007199254740992)
      = Finite (11 / 2)"
    by (subst fl_eval [of 2]) (simp_all add: point15_def round_half_even_def power_int_minus)
  have q: "fl (\<bar>- (3916173589017823 / 9007199254740992)\<bar> * point15)
      = Finite (4699408306821387 / 72057594037927936)"
    by (subst fl_eval [of "- 4"]) (simp_all add: point15_def round_half_even_def power_int_minus)
  have u: "fl (\<bar>- (3916173589017823 / 9007199254740992)\<bar> + 4699408306821387 / 72057594037927936)
      = Finite (1 / 2)"
    by (subst fl_eval [of "- 1"]) (simp_all add: point15_def round_half_even_def power_int_minus)
  from loss_increment_eval [OF p v] loss_increment_eval [OF q u]
  show ?thesis by (simp add: round_half_even_def)
qed

lemma fl_minus_10: "fl (- 10) = Finite (- 10)"
  by (subst fl_eval [of 3]) (simp_all add: round_half_even_def power_int_minus)

lemma fl_minus_5: "fl (- 5) = Finite (- 5)"
  by (subst fl_eval [of 2]) (simp_all add: round_half_even_def power_int_minus)

section \<open>Properties of the stake controller\<close>

lemmas stake_rules =
  handle_order_result_def settle_order_def loss_rule_def cap_rule_def win_rule_def
  info_def error_def Let_def

text \<open>The stake and the depth after one order result.\<close>

lemma amount_settle_order:
  "amount (settle_order cfg win s) =
     (if float_lt win (Finite 0)
      then (case loss_increment win of
              Inl e \<Rightarrow> amount s
            | Inr k \<Rightarrow> if max_martingel cfg < mm s + 1 then start_bet cfg else amount s + k)
      else start_bet cfg)"
  by (cases "loss_increment win") (simp_all add: stake_rules)

lemma mm_settle_order:
  "mm (settle_order cfg win s) =
     (if float_lt win (Finite 0)
      then (case loss_increment win of
              Inl e \<Rightarrow> mm s
            | Inr k \<Rightarrow> if max_martingel cfg < mm s + 1 then 0 else mm s + 1)
      else 0)"
  by (cases "loss_increment win") (simp_all add: stake_rules)

text \<open>
  One order result keeps the depth non-negative and the stake at or above the starting
  stake, and a depth of 0 goes with the starting stake.
\<close>

lemma settle_order_inv:
  assumes "0 \<le> mm s" and "start_bet cfg \<le> amount s"
    and "mm s = 0 \<longrightarrow> amount s = start_bet cfg"
  shows "0 \<le> mm (settle_order cfg win s)
     \<and> start_bet cfg \<le> amount (settle_order cfg win s)
     \<and> (mm (settle_order cfg win s) = 0
          \<longrightarrow> amount (settle_order cfg win s) = start_bet cfg)"
  using assms loss_increment_nonneg [of win]
  by (auto simp add: amount_settle_order mm_settle_order)

lemma outcomes_inv:
  assumes "0 \<le> mm s" and "start_bet cfg \<le> amount s"
    and "mm s = 0 \<longrightarrow> amount s = start_bet cfg"
  shows "0 \<le> mm (outcomes cfg s wins)
     \<and> start_bet cfg \<le> amount (outcomes cfg s wins)
     \<and> (mm (outcomes cfg s wins) = 0 \<longrightarrow> amount (outcomes cfg s wins) = start_bet cfg)"
  using assms
proof (induction wins arbitrary: s)
  case Nil
  then show ?case by simp
next
  case (Cons win wins)
  from settle_order_inv [OF Cons.prems, of win]
  show ?case by (simp add: Cons.IH)
qed

text \<open>When every loss is of at least 1, a positive depth means a raised stake.\<close>

lemma settle_order_strict:
  assumes "float_lt win (Finite 0) \<longrightarrow> \<not> float_lt (Finite (- 1)) win"
    and "start_bet cfg \<le> amount s"
    and "0 < mm s \<longrightarrow> start_bet cfg < amount s"
  shows "0 < mm (settle_order cfg win s)
     \<longrightarrow> start_bet cfg < amount (settle_order cfg win s)"
proof (cases "float_lt win (Finite 0)")
  case True
  with assms(1) have "\<not> float_lt (Finite (- 1)) win" by simp
  from loss_increment_pos [OF True this] assms(2,3) True show ?thesis
    by (auto simp add: amount_settle_order mm_settle_order)
next
  case False
  then show ?thesis by (simp add: mm_settle_order)
qed

lemma outcomes_strict:
  assumes "\<forall>w\<in>set wins. float_lt w (Finite 0) \<longrightarrow> \<not> float_lt (Finite (- 1)) w"
    and "0 \<le> mm s" and "start_bet cfg \<le> amount s"
    and "mm s = 0 \<longrightarrow> amount s = start_bet cfg"
    and "0 < mm s \<longrightarrow> start_bet cfg < amount s"
  shows "0 < mm (outcomes cfg s wins) \<longrightarrow> start_bet cfg < amount (outcomes cfg s wins)"
  using assms
proof (induction wins arbitrary: s)
  case Nil
  then show ?case by simp
next
  case (Cons win wins)
  have w: "float_lt win (Finite 0) \<longrightarrow> \<not> float_lt (Finite (- 1)) win"
    using Cons.prems(1) by simp
  have rest: "\<forall>w\<in>set wins. float_lt w (Finite 0) \<longrightarrow> \<not> float_lt (Finite (- 1)) w"
    using Cons.prems(1) by simp
  have inv: "0 \<le> mm (settle_order cfg win s)
     \<and> start_bet cfg \<le> amount (settle_order cfg win s)
     \<and> (mm (settle_order cfg win s) = 0
          \<longrightarrow> amount (settle_order cfg win s) = start_bet cfg)"
    using settle_order_inv [OF Cons.prems(2,3,4)] .
  have strict: "0 < mm (settle_order cfg win s)
     \<longrightarrow> start_bet cfg < amount (settle_order cfg win s)"
    using settle_order_strict [OF w Cons.prems(3,5)] .
  from Cons.IH [OF rest] inv strict show ?case by simp
qed

text \<open>
  C1 (as stated, refuted). The claim gives the stake after a loss as
  round(stake + |L| + 0.15 |L|). The source rounds the increment alone and adds it to the
  integer stake. At stake 11 and a loss of 70 the increment 80.5 lies half way and goes to
  the even 80, so the stake becomes 91, while the sum 91.5 rounds to 92: with Python's
  rounding on the exact sum, with rounding half up, and with Python's rounding on the sum
  taken in floats.
\<close>

theorem C1_round_position_counterexample:
  "amount (settle_order (demo_config 11 3) (Finite (- 70)) (init (demo_config 11 3))) = 91
   \<and> round_half_even (of_int (amount (init (demo_config 11 3))) + \<bar>- 70\<bar> + 15 / 100 * \<bar>- 70\<bar>) = 92
   \<and> round (of_int (amount (init (demo_config 11 3))) + \<bar>- 70 :: real\<bar> + 15 / 100 * \<bar>- 70\<bar>) = 92
   \<and> py_round (float_add (float_add (Finite 11) (float_abs (Finite (- 70))))
        (float_mul (Finite point15) (float_abs (Finite (- 70))))) = Inr 92"
proof -
  have a: "fl (11 + \<bar>- 70\<bar>) = Finite 81"
    by (subst fl_eval [of 6]) (simp_all add: round_half_even_def power_int_minus)
  have b: "fl (point15 * \<bar>- 70\<bar>) = Finite (21 / 2)"
    by (subst fl_eval [of 3]) (simp_all add: point15_def round_half_even_def power_int_minus)
  have c: "fl (81 + 21 / 2) = Finite (183 / 2)"
    by (subst fl_eval [of 6]) (simp_all add: round_half_even_def power_int_minus)
  have "py_round (float_add (float_add (Finite 11) (float_abs (Finite (- 70))))
        (float_mul (Finite point15) (float_abs (Finite (- 70))))) = Inr (round_half_even (183 / 2))"
    by (simp only: float_abs.simps float_add.simps float_mul.simps a b c py_round.simps)
  then show ?thesis
    by (simp add: amount_settle_order loss_increment_70 init_def demo_config_def
        round_half_even_def round_def)
qed

text \<open>
  C1 (amended). For every result \<open>win < 0\<close> and every prior state, the loss branch takes
  the increment \<open>round(abs(win) + abs(win) * .15)\<close> in float arithmetic with Python's
  rounding, adds it to the stake, adds 1 to \<open>mm\<close>, and only then looks at the cap; in the
  state the transition returns \<open>gameLose\<close> has grown by 1 and \<open>TempLose\<close> is the float sum
  of its old value and \<open>win\<close>, and the stake and the depth are the updated ones when the
  new depth does not exceed \<open>max_martingel\<close>, the starting stake and 0 otherwise. When
  the float sum is not finite \<open>round\<close> raises and only the loss has been logged; this does
  not happen for a loss of magnitude up to \<open>2 powi 1021\<close>.
\<close>

theorem C1_loss_transition:
  assumes "float_lt win (Finite 0)"
  shows "(case loss_increment win of
       Inl e \<Rightarrow> handle_order_result cfg win s = Inl (e, info (Loss win) s)
     | Inr k \<Rightarrow>
         (\<exists>s1. loss_rule win s = Inr s1 \<and> amount s1 = amount s + k \<and> mm s1 = mm s + 1
            \<and> handle_order_result cfg win s = Inr (cap_rule cfg s1))
         \<and> handle_order_result cfg win s = Inr (settle_order cfg win s)
         \<and> gameLose (settle_order cfg win s) = gameLose s + 1
         \<and> TempLose (settle_order cfg win s) = float_add (TempLose s) win
         \<and> (if mm s + 1 \<le> max_martingel cfg
             then amount (settle_order cfg win s) = amount s + k
                  \<and> mm (settle_order cfg win s) = mm s + 1
             else amount (settle_order cfg win s) = start_bet cfg
                  \<and> mm (settle_order cfg win s) = 0))
     \<and> (\<forall>w. win = Finite w \<and> \<bar>w\<bar> \<le> 2 powi 1021 \<longrightarrow> (\<exists>k. loss_increment win = Inr k))"
proof -
  have "\<forall>w. win = Finite w \<and> \<bar>w\<bar> \<le> 2 powi 1021 \<longrightarrow> (\<exists>k. loss_increment win = Inr k)"
    using loss_increment_defined by blast
  moreover have "case loss_increment win of
       Inl e \<Rightarrow> handle_order_result cfg win s = Inl (e, info (Loss win) s)
     | Inr k \<Rightarrow>
         (\<exists>s1. loss_rule win s = Inr s1 \<and> amount s1 = amount s + k \<and> mm s1 = mm s + 1
            \<and> handle_order_result cfg win s = Inr (cap_rule cfg s1))
         \<and> handle_order_result cfg win s = Inr (settle_order cfg win s)
         \<and> gameLose (settle_order cfg win s) = gameLose s + 1
         \<and> TempLose (settle_order cfg win s) = float_add (TempLose s) win
         \<and> (if mm s + 1 \<le> max_martingel cfg
             then amount (settle_order cfg win s) = amount s + k
                  \<and> mm (settle_order cfg win s) = mm s + 1
             else amount (settle_order cfg win s) = start_bet cfg
                  \<and> mm (settle_order cfg win s) = 0)"
    using assms by (cases "loss_increment win") (simp_all add: stake_rules)
  ultimately show ?thesis by blast
qed

theorem C1_loss_transition_witness:
  "float_lt (Finite (- 10)) (Finite 0)
   \<and> loss_increment (Finite (- 10)) = Inr 12
   \<and> amount (settle_order (demo_config 10 3) (Finite (- 10)) (init (demo_config 10 3))) = 22
   \<and> mm (settle_order (demo_config 10 3) (Finite (- 10)) (init (demo_config 10 3))) = 1
   \<and> gameLose (settle_order (demo_config 10 3) (Finite (- 10)) (init (demo_config 10 3))) = 1
   \<and> TempLose (settle_order (demo_config 10 3) (Finite (- 10)) (init (demo_config 10 3)))
       = Finite (- 10)"
proof -
  have h: "float_lt (Finite (- 10)) (Finite 0)" by simp
  from C1_loss_transition [OF h, of "demo_config 10 3" "init (demo_config 10 3)"]
  show ?thesis
    by (simp add: loss_increment_10 init_def demo_config_def fl_minus_10)
qed

text \<open>
  C2. When a loss takes the depth above \<open>max_martingel\<close>, the loss branch has still run
  first (the stake was raised by the increment, the loss logged and counted), then the
  stake is put back to \<open>start_bet\<close> and the depth to 0; \<open>TempLose\<close> keeps the loss added to
  it. The depth is not raised when \<open>round\<close> raises at line 258: then nothing but the log
  line of the loss is left.
\<close>

theorem C2_cap_reset_after_loss_update:
  assumes "float_lt win (Finite 0)" and "max_martingel cfg < mm s + 1"
  shows "case loss_rule win s of
       Inl (e, s1) \<Rightarrow>
         handle_order_result cfg win s = Inl (e, s1) \<and> s1 = info (Loss win) s
     | Inr s1 \<Rightarrow>
         handle_order_result cfg win s = Inr (cap_rule cfg s1)
         \<and> settle_order cfg win s = cap_rule cfg s1
         \<and> loss_increment win = Inr (amount s1 - amount s)
         \<and> mm s1 = mm s + 1
         \<and> logger (settle_order cfg win s)
             = logger s @ [(INFO, Loss win), (INFO, Max_Martingale_reached)]
         \<and> amount (settle_order cfg win s) = start_bet cfg
         \<and> mm (settle_order cfg win s) = 0
         \<and> TempLose (settle_order cfg win s) = float_add (TempLose s) win
         \<and> gameLose (settle_order cfg win s) = gameLose s + 1"
  using assms by (cases "loss_increment win") (simp_all add: stake_rules)

theorem C2_cap_reset_after_loss_update_witness:
  "float_lt (Finite (- 5)) (Finite 0)
   \<and> max_martingel (demo_config 10 0) < mm (init (demo_config 10 0)) + 1
   \<and> (case loss_rule (Finite (- 5)) (init (demo_config 10 0)) of
        Inl raised \<Rightarrow> False | Inr s1 \<Rightarrow> amount s1 = 16 \<and> mm s1 = 1)
   \<and> amount (settle_order (demo_config 10 0) (Finite (- 5)) (init (demo_config 10 0))) = 10
   \<and> mm (settle_order (demo_config 10 0) (Finite (- 5)) (init (demo_config 10 0))) = 0
   \<and> TempLose (settle_order (demo_config 10 0) (Finite (- 5)) (init (demo_config 10 0)))
       = Finite (- 5)"
proof -
  have h: "float_lt (Finite (- 5)) (Finite 0)" by simp
  have c: "max_martingel (demo_config 10 0) < mm (init (demo_config 10 0)) + 1"
    by (simp add: init_def demo_config_def)
  from C2_cap_reset_after_loss_update [OF h c]
  show ?thesis
    by (simp add: stake_rules loss_increment_5 init_def demo_config_def fl_minus_5)
qed

text \<open>
  C3. A result that is not below zero, zero included, puts the stake back to
  \<open>start_bet\<close>, the depth to 0 and \<open>TempLose\<close> to 0 and adds 1 to \<open>gameWin\<close>, whatever the
  prior state, and raises nothing; \<open>MaxLose\<close> and \<open>gameLose\<close> stay as they were.
\<close>

theorem C3_win_resets_to_baseline:
  assumes "\<not> float_lt win (Finite 0)"
  shows "handle_order_result cfg win s = Inr (settle_order cfg win s)
     \<and> amount (settle_order cfg win s) = start_bet cfg
     \<and> mm (settle_order cfg win s) = 0
     \<and> TempLose (settle_order cfg win s) = Finite 0
     \<and> gameWin (settle_order cfg win s) = gameWin s + 1
     \<and> MaxLose (settle_order cfg win s) = MaxLose s
     \<and> gameLose (settle_order cfg win s) = gameLose s"
  using assms by (simp add: stake_rules)

theorem C3_win_resets_to_baseline_witness:
  "\<not> float_lt (Finite 0) (Finite 0)
   \<and> amount (settle_order (demo_config 10 3) (Finite 0)
        (settle_order (demo_config 10 3) (Finite (- 10)) (init (demo_config 10 3)))) = 10
   \<and> mm (settle_order (demo_config 10 3) (Finite 0)
        (settle_order (demo_config 10 3) (Finite (- 10)) (init (demo_config 10 3)))) = 0
   \<and> TempLose (settle_order (demo_config 10 3) (Finite 0)
        (settle_order (demo_config 10 3) (Finite (- 10)) (init (demo_config 10 3)))) = Finite 0
   \<and> gameWin (settle_order (demo_config 10 3) (Finite 0)
        (settle_order (demo_config 10 3) (Finite (- 10)) (init (demo_config 10 3)))) = 1
   \<and> MaxLose (settle_order (demo_config 10 3) (Finite 0)
        (settle_order (demo_config 10 3) (Finite (- 10)) (init (demo_config 10 3)))) = Finite (- 10)"
proof -
  have h: "\<not> float_lt (Finite 0) (Finite 0)" by simp
  from C3_win_resets_to_baseline [OF h, of "demo_config 10 3"
      "settle_order (demo_config 10 3) (Finite (- 10)) (init (demo_config 10 3))"]
  show ?thesis
    by (simp add: stake_rules loss_increment_10 init_def demo_config_def fl_minus_10)
qed

text \<open>
  C5 (as stated, refuted). From stake 10 with cap 3 the claim gives the stakes seen before
  the second and third order as 21 and 37. The source gives 22 and 35: the first loss of 10
  adds round(11.5) = 12 and the second loss of 11.5 adds round(13.225) = 13.
\<close>

theorem C5_ladder_counterexample:
  "amount (outcomes (demo_config 10 3) (init (demo_config 10 3)) [Finite (- 10)]) \<noteq> 21
   \<and> amount (outcomes (demo_config 10 3) (init (demo_config 10 3))
        [Finite (- 10), Finite (- (23 / 2))]) \<noteq> 37"
  by (simp add: amount_settle_order mm_settle_order loss_increment_10 loss_increment_11_5
      init_def demo_config_def)

text \<open>
  C5 (amended). From stake 10 with cap 3, losses of 10, 11.5 and 13.225 in a row are met
  with the stakes 10, 22 and 35; after the third loss the depth is 3, which does not exceed
  the cap, and the stake is 50; a fourth loss takes the depth to 4 and the controller is
  back at stake 10 and depth 0. The fourth loss does so whenever \<open>round\<close> does not raise on
  it, which covers every loss of magnitude up to \<open>2 powi 1021\<close>; if it raises, stake 50
  and depth 3 are kept.
\<close>

theorem C5_ladder:
  "amount (init (demo_config 10 3)) = 10
   \<and> amount (outcomes (demo_config 10 3) (init (demo_config 10 3)) [Finite (- 10)]) = 22
   \<and> amount (outcomes (demo_config 10 3) (init (demo_config 10 3))
        [Finite (- 10), Finite (- (23 / 2))]) = 35
   \<and> amount (outcomes (demo_config 10 3) (init (demo_config 10 3))
        [Finite (- 10), Finite (- (23 / 2)), fl (- (13225 / 1000))]) = 50
   \<and> mm (outcomes (demo_config 10 3) (init (demo_config 10 3))
        [Finite (- 10), Finite (- (23 / 2)), fl (- (13225 / 1000))]) = 3
   \<and> (\<forall>L. float_lt L (Finite 0) \<longrightarrow>
        (case loss_increment L of
           Inl e \<Rightarrow>
             amount (outcomes (demo_config 10 3) (init (demo_config 10 3))
               [Finite (- 10), Finite (- (23 / 2)), fl (- (13225 / 1000)), L]) = 50
             \<and> mm (outcomes (demo_config 10 3) (init (demo_config 10 3))
               [Finite (- 10), Finite (- (23 / 2)), fl (- (13225 / 1000)), L]) = 3
         | Inr k \<Rightarrow>
             amount (outcomes (demo_config 10 3) (init (demo_config 10 3))
               [Finite (- 10), Finite (- (23 / 2)), fl (- (13225 / 1000)), L]) = 10
             \<and> mm (outcomes (demo_config 10 3) (init (demo_config 10 3))
               [Finite (- 10), Finite (- (23 / 2)), fl (- (13225 / 1000)), L]) = 0))
   \<and> (\<forall>x. x < 0 \<and> \<bar>x\<bar> \<le> 2 powi 1021 \<longrightarrow>
        amount (outcomes (demo_config 10 3) (init (demo_config 10 3))
          [Finite (- 10), Finite (- (23 / 2)), fl (- (13225 / 1000)), Finite x]) = 10
        \<and> mm (outcomes (demo_config 10 3) (init (demo_config 10 3))
          [Finite (- 10), Finite (- (23 / 2)), fl (- (13225 / 1000)), Finite x]) = 0)"
proof -
  define L3 where "L3 = fl (- (13225 / 1000))"
  have neg: "float_lt L3 (Finite 0)"
    unfolding L3_def fl_13_225 by simp
  have inc: "loss_increment L3 = Inr 15"
    unfolding L3_def by (rule loss_increment_13_225)
  have three: "amount (outcomes (demo_config 10 3) (init (demo_config 10 3))
        [Finite (- 10), Finite (- (23 / 2)), L3]) = 50
      \<and> mm (outcomes (demo_config 10 3) (init (demo_config 10 3))
        [Finite (- 10), Finite (- (23 / 2)), L3]) = 3"
    using neg
    by (simp add: amount_settle_order mm_settle_order loss_increment_10 loss_increment_11_5
        inc init_def demo_config_def)
  have four: "amount (outcomes (demo_config 10 3) (init (demo_config 10 3))
        [Finite (- 10), Finite (- (23 / 2)), L3, L])
      = amount (settle_order (demo_config 10 3) L
          (outcomes (demo_config 10 3) (init (demo_config 10 3))
            [Finite (- 10), Finite (- (23 / 2)), L3]))
    \<and> mm (outcomes (demo_config 10 3) (init (demo_config 10 3))
        [Finite (- 10), Finite (- (23 / 2)), L3, L])
      = mm (settle_order (demo_config 10 3) L
          (outcomes (demo_config 10 3) (init (demo_config 10 3))
            [Finite (- 10), Finite (- (23 / 2)), L3]))" for L
    by simp
  have any: "case loss_increment L of
           Inl e \<Rightarrow>
             amount (outcomes (demo_config 10 3) (init (demo_config 10 3))
               [Finite (- 10), Finite (- (23 / 2)), L3, L]) = 50
             \<and> mm (outcomes (demo_config 10 3) (init (demo_config 10 3))
               [Finite (- 10), Finite (- (23 / 2)), L3, L]) = 3
         | Inr k \<Rightarrow>
             amount (outcomes (demo_config 10 3) (init (demo_config 10 3))
               [Finite (- 10), Finite (- (23 / 2)), L3, L]) = 10
             \<and> mm (outcomes (demo_config 10 3) (init (demo_config 10 3))
               [Finite (- 10), Finite (- (23 / 2)), L3, L]) = 0"
    if "float_lt L (Finite 0)" for L
    unfolding four using that three
    by (cases "loss_increment L")
       (simp_all add: amount_settle_order mm_settle_order demo_config_def)
  have bounded: "amount (outcomes (demo_config 10 3) (init (demo_config 10 3))
          [Finite (- 10), Finite (- (23 / 2)), L3, Finite x]) = 10
        \<and> mm (outcomes (demo_config 10 3) (init (demo_config 10 3))
          [Finite (- 10), Finite (- (23 / 2)), L3, Finite x]) = 0"
    if "x < 0" and "\<bar>x\<bar> \<le> 2 powi 1021" for x
  proof -
    from loss_increment_defined [OF that(2)] obtain k
      where k: "loss_increment (Finite x) = Inr k" by blast
    from that(1) have "float_lt (Finite x) (Finite 0)" by simp
    from any [OF this] show ?thesis by (simp add: k)
  qed
  have first: "amount (init (demo_config 10 3)) = 10
   \<and> amount (outcomes (demo_config 10 3) (init (demo_config 10 3)) [Finite (- 10)]) = 22
   \<and> amount (outcomes (demo_config 10 3) (init (demo_config 10 3))
        [Finite (- 10), Finite (- (23 / 2))]) = 35"
    by (simp add: amount_settle_order mm_settle_order loss_increment_10 loss_increment_11_5
        init_def demo_config_def)
  from first three any bounded show ?thesis
    unfolding L3_def [symmetric] by blast
qed

theorem C5_ladder_witness:
  "float_lt (Finite (- 5)) (Finite 0)
   \<and> (- 5 :: real) < 0 \<and> \<bar>- 5 :: real\<bar> \<le> 2 powi 1021
   \<and> loss_increment (Finite (- 5)) = Inr 6
   \<and> amount (outcomes (demo_config 10 3) (init (demo_config 10 3))
        [Finite (- 10), Finite (- (23 / 2)), fl (- (13225 / 1000)), Finite (- 5)]) = 10
   \<and> mm (outcomes (demo_config 10 3) (init (demo_config 10 3))
        [Finite (- 10), Finite (- (23 / 2)), fl (- (13225 / 1000)), Finite (- 5)]) = 0"
proof -
  have b: "(- 5 :: real) < 0 \<and> \<bar>- 5 :: real\<bar> \<le> 2 powi 1021" by simp
  from C5_ladder b show ?thesis
    by (simp add: loss_increment_5)
qed

text \<open>
  C7 (as stated, refuted). A loss of 0.1 from the initial state adds round(0.115) = 0 to
  the stake: the depth is 1 and the stake is still the starting stake.
\<close>

theorem C7_recovering_counterexample:
  "0 < mm (outcomes (demo_config 10 3) (init (demo_config 10 3)) [fl (- (1 / 10))])
   \<and> \<not> start_bet (demo_config 10 3)
         < amount (outcomes (demo_config 10 3) (init (demo_config 10 3)) [fl (- (1 / 10))])"
proof -
  have "float_lt (fl (- (1 / 10))) (Finite 0)"
    unfolding fl_0_1 by simp
  then show ?thesis
    by (simp add: amount_settle_order mm_settle_order loss_increment_0_1
        init_def demo_config_def)
qed

text \<open>
  C7 (amended). In every state reached from the initial one by order results, a depth of 0
  goes with the starting stake and a positive depth with a stake that is at least the
  starting stake; the stake is above it when every loss of the run is of at least 1, so
  that each loss raises the stake by at least 1.
\<close>

theorem C7_baseline_and_recovering:
  "(mm (outcomes cfg (init cfg) wins) = 0
      \<longrightarrow> amount (outcomes cfg (init cfg) wins) = start_bet cfg)
   \<and> (0 < mm (outcomes cfg (init cfg) wins)
      \<longrightarrow> start_bet cfg \<le> amount (outcomes cfg (init cfg) wins))
   \<and> ((\<forall>w\<in>set wins. float_lt w (Finite 0) \<longrightarrow> \<not> float_lt (Finite (- 1)) w)
        \<and> 0 < mm (outcomes cfg (init cfg) wins)
      \<longrightarrow> start_bet cfg < amount (outcomes cfg (init cfg) wins))"
proof -
  have i: "0 \<le> mm (init cfg)" "start_bet cfg \<le> amount (init cfg)"
    "mm (init cfg) = 0 \<longrightarrow> amount (init cfg) = start_bet cfg"
    "0 < mm (init cfg) \<longrightarrow> start_bet cfg < amount (init cfg)"
    by (simp_all add: init_def)
  from outcomes_inv [OF i(1,2,3), of wins]
  have a: "mm (outcomes cfg (init cfg) wins) = 0
      \<longrightarrow> amount (outcomes cfg (init cfg) wins) = start_bet cfg"
    and b: "start_bet cfg \<le> amount (outcomes cfg (init cfg) wins)"
    by simp_all
  have c: "(\<forall>w\<in>set wins. float_lt w (Finite 0) \<longrightarrow> \<not> float_lt (Finite (- 1)) w)
        \<and> 0 < mm (outcomes cfg (init cfg) wins)
      \<longrightarrow> start_bet cfg < amount (outcomes cfg (init cfg) wins)"
    using outcomes_strict [OF _ i, of wins] by blast
  from a b c show ?thesis by simp
qed

theorem C7_baseline_and_recovering_witness:
  "mm (outcomes (demo_config 10 3) (init (demo_config 10 3)) [Finite (- 10), Finite 5]) = 0
   \<and> amount (outcomes (demo_config 10 3) (init (demo_config 10 3)) [Finite (- 10), Finite 5])
       = start_bet (demo_config 10 3)
   \<and> float_lt (Finite (- 10)) (Finite 0)
   \<and> \<not> float_lt (Finite (- 1)) (Finite (- 10))
   \<and> 0 < mm (outcomes (demo_config 10 3) (init (demo_config 10 3)) [Finite (- 10)])
   \<and> start_bet (demo_config 10 3)
       < amount (outcomes (demo_config 10 3) (init (demo_config 10 3)) [Finite (- 10)])"
  using C7_baseline_and_recovering [of "demo_config 10 3" "[Finite (- 10), Finite 5]"]
    C7_baseline_and_recovering [of "demo_config 10 3" "[Finite (- 10)]"]
  by (simp add: amount_settle_order mm_settle_order loss_increment_10 init_def demo_config_def)

text \<open>
  C10. In every state reached from the initial one by order results the stake is at
  least the starting stake: the initial stake is the starting stake, the loss branch never
  lowers the stake, and a win or a cap reset puts it back to the starting stake.
\<close>

theorem C10_stake_at_least_start:
  "start_bet cfg \<le> amount (outcomes cfg (init cfg) wins)
   \<and> amount (init cfg) = start_bet cfg
   \<and> (case loss_rule win s of
        Inl (e, s1) \<Rightarrow> amount s1 = amount s
      | Inr s1 \<Rightarrow> amount s \<le> amount s1)
   \<and> (\<not> float_lt win (Finite 0) \<longrightarrow> amount (settle_order cfg win s) = start_bet cfg)
   \<and> (float_lt win (Finite 0) \<and> max_martingel cfg < mm s + 1 \<longrightarrow>
        (case loss_increment win of
           Inl e \<Rightarrow> amount (settle_order cfg win s) = amount s
         | Inr k \<Rightarrow> amount (settle_order cfg win s) = start_bet cfg))"
proof -
  have "0 \<le> mm (init cfg)" and "start_bet cfg \<le> amount (init cfg)"
    and "mm (init cfg) = 0 \<longrightarrow> amount (init cfg) = start_bet cfg"
    by (simp_all add: init_def)
  from outcomes_inv [OF this, of wins]
  have reach: "start_bet cfg \<le> amount (outcomes cfg (init cfg) wins)" by simp
  have up: "case loss_rule win s of
        Inl (e, s1) \<Rightarrow> amount s1 = amount s
      | Inr s1 \<Rightarrow> amount s \<le> amount s1"
    using loss_increment_nonneg [of win]
    by (auto simp add: loss_rule_def info_def Let_def)
  have reset: "(\<not> float_lt win (Finite 0) \<longrightarrow> amount (settle_order cfg win s) = start_bet cfg)
     \<and> (float_lt win (Finite 0) \<and> max_martingel cfg < mm s + 1 \<longrightarrow>
        (case loss_increment win of
           Inl e \<Rightarrow> amount (settle_order cfg win s) = amount s
         | Inr k \<Rightarrow> amount (settle_order cfg win s) = start_bet cfg))"
    by (cases "loss_increment win") (simp_all add: amount_settle_order)
  from reach up reset show ?thesis by (simp add: init_def)
qed

theorem C10_stake_at_least_start_witness:
  "start_bet (demo_config 10 0)
     \<le> amount (outcomes (demo_config 10 0) (init (demo_config 10 0))
          [Finite (- 10), Finite 3, Finite (- 5)])
   \<and> \<not> float_lt (Finite 3) (Finite 0)
   \<and> amount (settle_order (demo_config 10 0) (Finite 3) (init (demo_config 10 0))) = 10
   \<and> float_lt (Finite (- 5)) (Finite 0)
   \<and> max_martingel (demo_config 10 0) < mm (init (demo_config 10 0)) + 1
   \<and> loss_increment (Finite (- 5)) = Inr 6
   \<and> amount (settle_order (demo_config 10 0) (Finite (- 5)) (init (demo_config 10 0))) = 10"
  using C10_stake_at_least_start
      [where cfg = "demo_config 10 0" and wins = "[Finite (- 10), Finite 3, Finite (- 5)]"
        and win = "Finite 3" and s = "init (demo_config 10 0)"]
    C10_stake_at_least_start
      [where cfg = "demo_config 10 0" and wins = "[Finite (- 10), Finite 3, Finite (- 5)]"
        and win = "Finite (- 5)" and s = "init (demo_config 10 0)"]
  by (simp add: amount_settle_order mm_settle_order loss_increment_5 loss_increment_10
      init_def demo_config_def)

section \<open>Properties of the analysis\<close>

lemma length_rolling: "length (rolling w f xs) = length xs"
  by (simp add: rolling_def)

lemma nth_rolling:
  "i < length xs \<Longrightarrow>
   rolling w f xs ! i = (if i + 1 < w then None else Some (f (take w (drop (i + 1 - w) xs))))"
  by (simp add: rolling_def)

lemma length_ewm_from: "length (ewm_from a y xs) = length xs"
  by (induction xs arbitrary: y) simp_all

lemma length_ewm_mean: "length (ewm_mean n xs) = length xs"
  by (simp add: ewm_mean_def length_ewm_from split: list.splits)

lemma length_add_indicators: "length (add_indicators rs) = length rs"
  by (simp add: add_indicators_def Let_def)

lemma length_dropna: "length (dropna t) \<le> length t"
  by (simp add: dropna_def)

lemma filter_from_upt: "filter (\<lambda>i. k \<le> i) [0..<n] = [k..<n]"
proof (induction n)
  case 0
  then show ?case by simp
next
  case (Suc n)
  then show ?case by (cases "k \<le> n") simp_all
qed

lemma dropna_add_indicators: "dropna (add_indicators rs) = drop 19 (add_indicators rs)"
proof -
  define row where "row = (\<lambda>i. add_indicators rs ! i)"
  have len: "length (add_indicators rs) = length rs" by (rule length_add_indicators)
  have eq: "add_indicators rs = map row [0..<length rs]"
    unfolding row_def using len by (metis map_nth)
  have keep: "\<And>i. i < length rs \<Longrightarrow>
      (SMA (row i) \<noteq> None \<and> STD (row i) \<noteq> None \<and> Upper_BB (row i) \<noteq> None
        \<and> Lower_BB (row i) \<noteq> None) = (19 \<le> i)"
    unfolding row_def
    by (simp add: add_indicators_def Let_def nth_rolling length_rolling nan_lift_def)
  have "dropna (add_indicators rs)
      = map row (filter (\<lambda>i. SMA (row i) \<noteq> None \<and> STD (row i) \<noteq> None
          \<and> Upper_BB (row i) \<noteq> None \<and> Lower_BB (row i) \<noteq> None) [0..<length rs])"
    by (subst eq) (simp add: dropna_def filter_map comp_def)
  also have "filter (\<lambda>i. SMA (row i) \<noteq> None \<and> STD (row i) \<noteq> None
          \<and> Upper_BB (row i) \<noteq> None \<and> Lower_BB (row i) \<noteq> None) [0..<length rs]
      = filter (\<lambda>i. 19 \<le> i) [0..<length rs]"
  proof (rule filter_cong [OF refl])
    fix i
    assume "i \<in> set [0..<length rs]"
    then have "i < length rs" by simp
    from keep [OF this]
    show "(SMA (row i) \<noteq> None \<and> STD (row i) \<noteq> None \<and> Upper_BB (row i) \<noteq> None
        \<and> Lower_BB (row i) \<noteq> None) = (19 \<le> i)" .
  qed
  also have "\<dots> = drop 19 [0..<length rs]"
    by (simp add: filter_from_upt drop_upt)
  also have "map row (drop 19 [0..<length rs]) = drop 19 (add_indicators rs)"
    by (subst eq) (simp add: drop_map)
  finally show ?thesis .
qed

lemma iloc_last: "xs \<noteq> [] \<Longrightarrow> iloc xs (- 1) = Some (last xs)"
  by (cases xs rule: rev_cases) (simp_all add: iloc_def Let_def nth_append)

lemma iloc_second_last:
  "2 \<le> length xs \<Longrightarrow> iloc xs (- 2) = Some (xs ! (length xs - 2))"
  by (simp add: iloc_def Let_def nat_diff_distrib') 

lemma those_None: "None \<in> set xs \<Longrightarrow> those xs = None"
  by (induction xs) (auto split: option.splits)

lemma those_length: "those xs = Some ys \<Longrightarrow> length ys = length xs"
  by (induction xs arbitrary: ys) (auto split: option.splits)

lemma those_map_Some: "those (map (\<lambda>x. Some (f x)) xs) = Some (map f xs)"
  by (induction xs) simp_all

lemma get_price_data_rows:
  assumes "rows (fst (get_price_data response s)) \<noteq> []"
  shows "columns (fst (get_price_data response s)) = [''open'', ''close'', ''low'', ''high'']
     \<and> snd (get_price_data response s) = s"
  using assms
  by (auto simp add: get_price_data_def empty_frame_def split: option.splits)

lemma get_price_data_length:
  "get_price_data (Some candles) s = (price_data, s') \<Longrightarrow> length (rows price_data) \<le> length candles"
  by (auto simp add: get_price_data_def empty_frame_def dest: those_length split: option.splits)

lemma get_price_data_None:
  "get_price_data None s = (empty_frame, error Failed_to_fetch_price_data s)"
  by (simp add: get_price_data_def)

lemma get_price_data_missing_field:
  assumes "c \<in> set candles"
    and "c ''open'' = None \<or> c ''close'' = None \<or> c ''min'' = None \<or> c ''max'' = None"
  shows "get_price_data (Some candles) s = (empty_frame, error Failed_to_fetch_price_data s)"
proof -
  from assms(2) have "candle_row c = None"
    by (auto simp add: candle_row_def split: option.splits)
  with assms(1) have "None \<in> set (map candle_row candles)"
    by (metis image_eqI set_map)
  then have "those (map candle_row candles) = None" by (rule those_None)
  then show ?thesis by (simp add: get_price_data_def)
qed

lemma analyze_market_empty_frame:
  "get_price_data response s = (empty_frame, s') \<Longrightarrow>
   analyze_market cfg response s = (None, error Price_data_is_empty_or_too_short s')"
  by (simp add: analyze_market_def empty_frame_def)

lemma signals_Some:
  assumes "2 \<le> length t"
  shows "\<exists>v. signals t = Some v \<and> latest_row v = last t
     \<and> second_last_row v = t ! (length t - 2) \<and> third_last_row v = t ! (length t - 2)"
proof -
  from assms have ne: "t \<noteq> []" by auto
  show ?thesis
    by (simp add: signals_def iloc_last [OF ne] iloc_second_last [OF assms] Let_def)
qed

lemma analyze_market_decides:
  assumes "2 \<le> length (dropna (add_indicators (rows (fst (get_price_data response s)))))"
  shows "analyze_market cfg response s =
     ((if close (last (dropna (add_indicators (rows (fst (get_price_data response s))))))
           > open' (last (dropna (add_indicators (rows (fst (get_price_data response s))))))
       then Some ''call''
       else if close (last (dropna (add_indicators (rows (fst (get_price_data response s))))))
           < open' (last (dropna (add_indicators (rows (fst (get_price_data response s))))))
       then Some ''put''
       else None), s)"
proof -
  define price_data where "price_data = fst (get_price_data response s)"
  define table where "table = dropna (add_indicators (rows price_data))"
  have t2: "2 \<le> length table" using assms by (simp add: table_def price_data_def)
  have "length table \<le> length (rows price_data)"
    unfolding table_def using length_dropna [of "add_indicators (rows price_data)"]
    by (simp add: length_add_indicators)
  with t2 have r2: "2 \<le> length (rows price_data)" by simp
  then have rne: "rows price_data \<noteq> []" by auto
  from get_price_data_rows [OF rne [unfolded price_data_def]]
  have cols: "columns price_data = [''open'', ''close'', ''low'', ''high'']"
    and st: "snd (get_price_data response s) = s"
    by (simp_all add: price_data_def)
  have gp: "get_price_data response s = (price_data, s)"
    using st by (simp add: price_data_def prod_eq_iff)
  from t2 have ne: "table \<noteq> []" by auto
  from signals_Some [OF t2] obtain v
    where sg: "signals table = Some v" and lv: "latest_row v = last table" by blast
  have "analyze_market cfg response s = (decision v, s)"
    using r2 rne t2 ne sg
    by (simp add: analyze_market_def gp cols table_def [symmetric])
  with lv show ?thesis
    by (simp add: decision_def table_def price_data_def)
qed

lemma analyze_market_frame:
  "amount (snd (analyze_market cfg response s)) = amount s
   \<and> mm (snd (analyze_market cfg response s)) = mm s
   \<and> direction (snd (analyze_market cfg response s)) = direction s
   \<and> TempLose (snd (analyze_market cfg response s)) = TempLose s
   \<and> MaxLose (snd (analyze_market cfg response s)) = MaxLose s
   \<and> gameWin (snd (analyze_market cfg response s)) = gameWin s
   \<and> gameLose (snd (analyze_market cfg response s)) = gameLose s
   \<and> orders (snd (analyze_market cfg response s)) = orders s"
proof -
  have g: "\<exists>l. snd (get_price_data response s) = s\<lparr>logger := l\<rparr>"
    by (auto simp add: get_price_data_def error_def split: option.splits intro: exI [of _ "logger s"])
  obtain pd s1 where gp: "get_price_data response s = (pd, s1)" by (cases "get_price_data response s")
  with g obtain l where s1: "s1 = s\<lparr>logger := l\<rparr>" by auto
  show ?thesis
    by (simp add: analyze_market_def gp s1 error_def Let_def split: option.splits)
qed

lemma candle_row_candle_of: "candle_row (candle_of i oc) = Some (row_of oc)"
  by (simp add: candle_row_def candle_of_def row_of_def)

lemma candle_of_id: "candle_of i oc ''id'' = Some (60 * real i)"
  by (simp add: candle_of_def)

lemma get_price_data_candles_of:
  "get_price_data (Some (candles_of ocs)) s =
     (\<lparr>columns = (if ocs = [] then [] else [''open'', ''close'', ''low'', ''high'']),
       rows = map row_of ocs\<rparr>, s)"
proof -
  have a: "map candle_row (candles_of ocs) = map (\<lambda>i. Some (row_of (ocs ! i))) [0..<length ocs]"
    by (simp add: candles_of_def candle_row_candle_of comp_def)
  have b: "map (\<lambda>i. row_of (ocs ! i)) [0..<length ocs] = map row_of ocs"
    by (rule nth_equalityI) simp_all
  have c: "map (\<lambda>candle. candle ''id'') (candles_of ocs) = map (\<lambda>i. Some (60 * real i)) [0..<length ocs]"
    by (simp add: candles_of_def candle_of_id comp_def)
  show ?thesis
    by (simp add: get_price_data_def a c those_map_Some b)
qed

lemma length_trimmed: "length (dropna (add_indicators rs)) = length rs - 19"
  by (simp add: dropna_add_indicators length_add_indicators)

lemma trimmed_nth:
  "k < length rs - 19 \<Longrightarrow> dropna (add_indicators rs) ! k = add_indicators rs ! (19 + k)"
  by (simp add: dropna_add_indicators length_add_indicators)

lemma add_indicators_nth:
  "i < length rs \<Longrightarrow>
     open' (add_indicators rs ! i) = open' (rs ! i)
   \<and> close (add_indicators rs ! i) = close (rs ! i)
   \<and> ema_cross (add_indicators rs ! i) = ewm_mean 12 (map close rs) ! i
   \<and> ema_trend (add_indicators rs ! i) = ewm_mean 50 (map close rs) ! i
   \<and> ema_base (add_indicators rs ! i) = ewm_mean 200 (map close rs) ! i"
  by (simp add: add_indicators_def Let_def)

lemma trimmed_last:
  assumes "20 \<le> length rs"
  shows "open' (last (dropna (add_indicators rs))) = open' (last rs)
     \<and> close (last (dropna (add_indicators rs))) = close (last rs)"
proof -
  from assms have ne: "rs \<noteq> []" by auto
  have "last (dropna (add_indicators rs)) = last (add_indicators rs)"
    using assms by (simp add: dropna_add_indicators length_add_indicators)
  also have "\<dots> = add_indicators rs ! (length rs - 1)"
  proof -
    from ne have "add_indicators rs \<noteq> []"
      by (metis length_0_conv length_add_indicators)
    then show ?thesis by (simp add: last_conv_nth length_add_indicators)
  qed
  finally show ?thesis
    using assms add_indicators_nth [of "length rs - 1" rs] ne
    by (simp add: last_conv_nth)
qed

lemma ewm_from_flat: "ewm_from a y (replicate k y @ xs) = replicate k y @ ewm_from a y xs"
  by (induction k) (simp_all add: algebra_simps)

lemma ewm_mean_flat:
  "0 < k \<Longrightarrow>
   ewm_mean n (replicate k y @ xs) = replicate k y @ ewm_from (2 / (real n + 1)) y xs"
  by (cases k) (simp_all add: ewm_mean_def ewm_from_flat)

lemma cross_rows:
  "get_price_data (Some cross_series) s =
     (\<lparr>columns = [''open'', ''close'', ''low'', ''high''],
       rows = map row_of (replicate 19 (10, 10) @ [(10, 9), (9, 20), (20, 20)])\<rparr>, s)"
  by (simp add: cross_series_def get_price_data_candles_of)

lemma cross_closes:
  "map close (map row_of (replicate 19 (10, 10) @ [(10, 9), (9, 20), (20, 20)]))
     = replicate 19 10 @ [9, 20, 20]"
  by (simp add: row_of_def)


section \<open>Claims about the analysis and the cycle\<close>

text \<open>
  C4. When at least two rows are left after \<open>dropna\<close>, the direction returned is read off
  the last row alone: call when its close is above its open, put when below, no signal
  when they are equal; the setup booleans take no part. So a last row with close 1.2050
  and open 1.2000 gives call, close 1.1990 and open 1.2000 gives put, and close 1.2000
  and open 1.2000 gives no signal.
\<close>

theorem C4_decision_by_latest_row:
  assumes "get_price_data response s = (price_data, s')"
    and "table = dropna (add_indicators (rows price_data))"
    and "2 \<le> length table"
  shows "fst (analyze_market cfg response s) =
      (if close (last table) > open' (last table) then Some ''call''
       else if close (last table) < open' (last table) then Some ''put''
       else None)
     \<and> iloc table (- 1) = Some (last table)
     \<and> (close (last table) = 1205 / 1000 \<and> open' (last table) = 12 / 10
          \<longrightarrow> fst (analyze_market cfg response s) = Some ''call'')
     \<and> (close (last table) = 1199 / 1000 \<and> open' (last table) = 12 / 10
          \<longrightarrow> fst (analyze_market cfg response s) = Some ''put'')
     \<and> (close (last table) = 12 / 10 \<and> open' (last table) = 12 / 10
          \<longrightarrow> fst (analyze_market cfg response s) = None)"
proof -
  have t: "table = dropna (add_indicators (rows (fst (get_price_data response s))))"
    using assms(1,2) by simp
  from assms(3) have ne: "table \<noteq> []" by auto
  have d: "fst (analyze_market cfg response s) =
      (if close (last table) > open' (last table) then Some ''call''
       else if close (last table) < open' (last table) then Some ''put''
       else None)"
    using analyze_market_decides [of response s cfg] assms(3) by (simp add: t)
  show ?thesis
    by (simp add: d iloc_last [OF ne])
qed

theorem C4_decision_by_latest_row_witness:
  "2 \<le> length (dropna (add_indicators (rows (fst (get_price_data
          (Some (flat_then (12 / 10, 1205 / 1000))) (init (demo_config 10 3)))))))
   \<and> fst (analyze_market (demo_config 10 3) (Some (flat_then (12 / 10, 1205 / 1000)))
        (init (demo_config 10 3))) = Some ''call''
   \<and> 2 \<le> length (dropna (add_indicators (rows (fst (get_price_data
          (Some (flat_then (12 / 10, 1199 / 1000))) (init (demo_config 10 3)))))))
   \<and> fst (analyze_market (demo_config 10 3) (Some (flat_then (12 / 10, 1199 / 1000)))
        (init (demo_config 10 3))) = Some ''put''
   \<and> 2 \<le> length (dropna (add_indicators (rows (fst (get_price_data
          (Some (flat_then (12 / 10, 12 / 10))) (init (demo_config 10 3)))))))
   \<and> fst (analyze_market (demo_config 10 3) (Some (flat_then (12 / 10, 12 / 10)))
        (init (demo_config 10 3))) = None"
proof -
  have r: "2 \<le> length (dropna (add_indicators (rows (fst (get_price_data
          (Some (flat_then oc)) (init (demo_config 10 3)))))))
     \<and> fst (analyze_market (demo_config 10 3) (Some (flat_then oc)) (init (demo_config 10 3)))
        = (if snd oc > fst oc then Some ''call''
           else if snd oc < fst oc then Some ''put'' else None)" for oc
  proof -
    define rs where "rs = map row_of (replicate 20 (12 / 10, 12 / 10) @ [oc])"
    have g: "get_price_data (Some (flat_then oc)) (init (demo_config 10 3)) =
        (\<lparr>columns = [''open'', ''close'', ''low'', ''high''], rows = rs\<rparr>,
         init (demo_config 10 3))"
      by (simp add: flat_then_def get_price_data_candles_of rs_def)
    have lrs: "length rs = 21" by (simp add: rs_def)
    have l: "2 \<le> length (dropna (add_indicators rs))"
      by (simp add: length_trimmed lrs)
    have e: "open' (last (dropna (add_indicators rs))) = fst oc
        \<and> close (last (dropna (add_indicators rs))) = snd oc"
      using trimmed_last [of rs] by (simp add: lrs) (simp add: rs_def row_of_def)
    have t: "dropna (add_indicators rs)
        = dropna (add_indicators (rows \<lparr>columns = [''open'', ''close'', ''low'', ''high''], rows = rs\<rparr>))"
      by simp
    from C4_decision_by_latest_row [OF g t l, of "demo_config 10 3"] l e
    show ?thesis by (simp add: g)
  qed
  from r [of "(12 / 10, 1205 / 1000)"] r [of "(12 / 10, 1199 / 1000)"] r [of "(12 / 10, 12 / 10)"]
  show ?thesis by simp
qed

text \<open>
  C6 (the code at the failing input). The source takes both the second-last and the
  third-last row from \<open>iloc[-2]\<close>, so its \<open>crossOver\<close> and \<open>crossUnder\<close> ask for a row's
  fast average to be both below and above its middle one and are never true. On
  \<open>cross_series\<close> three rows are left after \<open>dropna\<close>, the fast average crosses the middle
  one between the third-last and the second-last row, and the claim's \<open>crossOver\<close> is true
  while the source's is false.
\<close>

theorem C6_cross_compares_row_with_itself:
  "map_option crossOver (signals table) \<noteq> Some True
   \<and> map_option crossUnder (signals table) \<noteq> Some True
   \<and> map_option crossOver
      (signals (dropna (add_indicators (rows (fst (get_price_data (Some cross_series) s))))))
     = Some False
   \<and> crossOver_spec (dropna (add_indicators (rows (fst (get_price_data (Some cross_series) s)))))
     = Some True"
proof -
  define rs where "rs = map row_of (replicate 19 (10, 10) @ [(10, 9), (9, 20), (20, 20)])"
  define t where "t = dropna (add_indicators rs)"
  have len: "length rs = 22" by (simp add: rs_def)
  have lt: "length t = 3" by (simp add: t_def length_trimmed len)
  have n1: "t ! 1 = add_indicators rs ! 20" and n0: "t ! 0 = add_indicators rs ! 19"
    using trimmed_nth [of 1 rs] trimmed_nth [of 0 rs] by (simp_all add: t_def len)
  have cl: "map close rs = replicate 19 10 @ [9, 20, 20]"
    unfolding rs_def by (rule cross_closes)
  have e: "ema_cross (t ! 0) = 128 / 13" "ema_trend (t ! 0) = 508 / 51"
    using add_indicators_nth [of 19 rs]
    by (simp_all add: n0 len cl ewm_mean_flat nth_append)
  have "ema_cross (add_indicators rs ! 20) = 1928 / 169"
    and "ema_trend (add_indicators rs ! 20) = 26932 / 2601"
    using add_indicators_nth [of 20 rs]
    by (simp_all add: len cl ewm_mean_flat nth_append)
  then have f: "ema_cross (t ! 1) > ema_trend (t ! 1)"
    unfolding n1 by simp
  have i2: "iloc t (- 2) = Some (t ! 1)" and i3: "iloc t (- 3) = Some (t ! 0)"
    by (simp_all add: iloc_def lt Let_def)
  have i1: "iloc t (- 1) = Some (t ! 2)"
    by (simp add: iloc_def lt Let_def)
  have "map_option crossOver (signals t) = Some False"
    by (auto simp add: signals_def i1 i2 Let_def)
  moreover have "crossOver_spec t = Some True"
    using e f by (simp add: crossOver_spec_def i2 i3 lt)
  moreover have "map_option crossOver (signals table) \<noteq> Some True"
    and "map_option crossUnder (signals table) \<noteq> Some True"
    by (auto simp add: signals_def Let_def split: option.splits)
  ultimately show ?thesis
    by (simp add: cross_rows t_def rs_def)
qed

text \<open>
  C8 (as stated, refuted). A series with a candle that has no \<open>close\<close> ends as a failed
  fetch does: the table is empty, the analysis logs the line of empty or too short data,
  the very line an empty list of candles gets, and the line about missing columns is not
  logged.
\<close>

theorem C8_malformed_counterexample:
  "analyze_market (demo_config 10 3) (Some malformed_series) (init (demo_config 10 3))
     = analyze_market (demo_config 10 3) None (init (demo_config 10 3))
   \<and> logger (snd (analyze_market (demo_config 10 3) (Some malformed_series)
        (init (demo_config 10 3))))
     = [(ERROR, Failed_to_fetch_price_data), (ERROR, Price_data_is_empty_or_too_short)]
   \<and> logger (snd (analyze_market (demo_config 10 3) (Some []) (init (demo_config 10 3))))
     = [(ERROR, Price_data_is_empty_or_too_short)]"
proof -
  have "get_price_data (Some malformed_series) (init (demo_config 10 3))
      = (empty_frame, error Failed_to_fetch_price_data (init (demo_config 10 3)))"
    by (rule get_price_data_missing_field
          [of "[''open'' \<mapsto> 12 / 10, ''min'' \<mapsto> 119 / 100, ''max'' \<mapsto> 121 / 100, ''id'' \<mapsto> 1260]"])
       (simp_all add: malformed_series_def)
  from analyze_market_empty_frame [OF this] analyze_market_empty_frame [OF get_price_data_None]
  have "analyze_market (demo_config 10 3) (Some malformed_series) (init (demo_config 10 3))
      = (None, error Price_data_is_empty_or_too_short
           (error Failed_to_fetch_price_data (init (demo_config 10 3))))"
    and "analyze_market (demo_config 10 3) None (init (demo_config 10 3))
      = (None, error Price_data_is_empty_or_too_short
           (error Failed_to_fetch_price_data (init (demo_config 10 3))))"
    by simp_all
  moreover have "logger (snd (analyze_market (demo_config 10 3) (Some [])
        (init (demo_config 10 3)))) = [(ERROR, Price_data_is_empty_or_too_short)]"
    by (simp add: analyze_market_def get_price_data_def error_def init_def)
  ultimately show ?thesis
    by (simp add: error_def init_def)
qed

text \<open>
  C8 (amended). When some candle of the series lacks \<open>open\<close>, \<open>close\<close>, \<open>min\<close> or \<open>max\<close>, the
  fetch logs its failure and hands over the empty table; the analysis logs the line of
  empty or too short data and returns no signal, with no indicator computed.
\<close>

theorem C8_missing_field_is_empty_data:
  assumes "c \<in> set candles"
    and "c ''open'' = None \<or> c ''close'' = None \<or> c ''min'' = None \<or> c ''max'' = None"
  shows "get_price_data (Some candles) s = (empty_frame, error Failed_to_fetch_price_data s)
     \<and> analyze_market cfg (Some candles) s
         = (None, error Price_data_is_empty_or_too_short (error Failed_to_fetch_price_data s))"
  using get_price_data_missing_field [OF assms, of s]
  by (simp add: analyze_market_empty_frame)

theorem C8_missing_field_is_empty_data_witness:
  "[''open'' \<mapsto> 12 / 10, ''min'' \<mapsto> 119 / 100, ''max'' \<mapsto> 121 / 100, ''id'' \<mapsto> 1260]
      \<in> set malformed_series
   \<and> [''open'' \<mapsto> 12 / 10, ''min'' \<mapsto> 119 / 100, ''max'' \<mapsto> 121 / 100, ''id'' \<mapsto> (1260 :: real)]
        ''close'' = None
   \<and> analyze_market (demo_config 10 3) (Some malformed_series) (init (demo_config 10 3))
       = (None, error Price_data_is_empty_or_too_short
            (error Failed_to_fetch_price_data (init (demo_config 10 3))))"
proof -
  have m: "[''open'' \<mapsto> 12 / 10, ''min'' \<mapsto> 119 / 100, ''max'' \<mapsto> 121 / 100, ''id'' \<mapsto> 1260]
      \<in> set malformed_series"
    by (simp add: malformed_series_def)
  have n: "[''open'' \<mapsto> 12 / 10, ''min'' \<mapsto> 119 / 100, ''max'' \<mapsto> 121 / 100, ''id'' \<mapsto> (1260 :: real)]
      ''open'' = None
    \<or> [''open'' \<mapsto> 12 / 10, ''min'' \<mapsto> 119 / 100, ''max'' \<mapsto> 121 / 100, ''id'' \<mapsto> (1260 :: real)]
      ''close'' = None
    \<or> [''open'' \<mapsto> 12 / 10, ''min'' \<mapsto> 119 / 100, ''max'' \<mapsto> 121 / 100, ''id'' \<mapsto> (1260 :: real)]
      ''min'' = None
    \<or> [''open'' \<mapsto> 12 / 10, ''min'' \<mapsto> 119 / 100, ''max'' \<mapsto> 121 / 100, ''id'' \<mapsto> (1260 :: real)]
      ''max'' = None"
    by simp
  from C8_missing_field_is_empty_data [OF m n] m show ?thesis by simp
qed


text \<open>
  C9. A cycle whose analysis gives no signal makes no call of \<open>buy\<close> and leaves the stake,
  the depth, both counters and both loss totals as they were; only log lines may be
  added. A failed fetch and a series of fewer than two candles give no signal.
\<close>

theorem C9_no_signal_cycle:
  assumes "fst (analyze_market cfg (get_candles account) s) = None"
  shows "orders (create_order cfg account s) = orders s
     \<and> amount (create_order cfg account s) = amount s
     \<and> mm (create_order cfg account s) = mm s
     \<and> gameWin (create_order cfg account s) = gameWin s
     \<and> gameLose (create_order cfg account s) = gameLose s
     \<and> TempLose (create_order cfg account s) = TempLose s
     \<and> MaxLose (create_order cfg account s) = MaxLose s
     \<and> fst (analyze_market cfg None s) = None
     \<and> (\<forall>candles. length candles < 2 \<longrightarrow> fst (analyze_market cfg (Some candles) s) = None)"
proof -
  have "create_order cfg account s = snd (analyze_market cfg (get_candles account) s)"
    using assms by (simp add: create_order_def split_beta)
  then have same: "orders (create_order cfg account s) = orders s
     \<and> amount (create_order cfg account s) = amount s
     \<and> mm (create_order cfg account s) = mm s
     \<and> gameWin (create_order cfg account s) = gameWin s
     \<and> gameLose (create_order cfg account s) = gameLose s
     \<and> TempLose (create_order cfg account s) = TempLose s
     \<and> MaxLose (create_order cfg account s) = MaxLose s"
    using analyze_market_frame [of cfg "get_candles account" s] by simp
  have failed: "fst (analyze_market cfg None s) = None"
    by (simp add: analyze_market_empty_frame [OF get_price_data_None])
  have short: "fst (analyze_market cfg (Some candles) s) = None" if "length candles < 2" for candles
  proof -
    obtain price_data s' where g: "get_price_data (Some candles) s = (price_data, s')"
      by (cases "get_price_data (Some candles) s")
    from get_price_data_length [OF g] that have "length (rows price_data) < 2" by simp
    then show ?thesis by (simp add: analyze_market_def g)
  qed
  from same failed short show ?thesis by simp
qed

theorem C9_no_signal_cycle_witness:
  "fst (analyze_market (demo_config 10 3)
      (get_candles \<lparr>get_candles = Some (flat_then (12 / 10, 12 / 10)), get_balance = Some 1000,
         buy = Some (True, 7), check_win_v3 = Some (Finite (- 10))\<rparr>)
      (outcomes (demo_config 10 3) (init (demo_config 10 3)) [Finite (- 10)])) = None
   \<and> orders (create_order (demo_config 10 3)
       \<lparr>get_candles = Some (flat_then (12 / 10, 12 / 10)), get_balance = Some 1000,
         buy = Some (True, 7), check_win_v3 = Some (Finite (- 10))\<rparr>
       (outcomes (demo_config 10 3) (init (demo_config 10 3)) [Finite (- 10)])) = []
   \<and> amount (create_order (demo_config 10 3)
       \<lparr>get_candles = Some (flat_then (12 / 10, 12 / 10)), get_balance = Some 1000,
         buy = Some (True, 7), check_win_v3 = Some (Finite (- 10))\<rparr>
       (outcomes (demo_config 10 3) (init (demo_config 10 3)) [Finite (- 10)])) = 22
   \<and> mm (create_order (demo_config 10 3)
       \<lparr>get_candles = Some (flat_then (12 / 10, 12 / 10)), get_balance = Some 1000,
         buy = Some (True, 7), check_win_v3 = Some (Finite (- 10))\<rparr>
       (outcomes (demo_config 10 3) (init (demo_config 10 3)) [Finite (- 10)])) = 1
   \<and> length [candle_of 0 (12 / 10, 1205 / 1000)] < 2
   \<and> fst (analyze_market (demo_config 10 3) (Some [candle_of 0 (12 / 10, 1205 / 1000)])
        (outcomes (demo_config 10 3) (init (demo_config 10 3)) [Finite (- 10)])) = None"
proof -
  define s where "s = outcomes (demo_config 10 3) (init (demo_config 10 3)) [Finite (- 10)]"
  define rs where "rs = map row_of (replicate 20 (12 / 10, 12 / 10) @ [(12 / 10, 12 / 10)])"
  have g: "get_price_data (Some (flat_then (12 / 10, 12 / 10))) s =
      (\<lparr>columns = [''open'', ''close'', ''low'', ''high''], rows = rs\<rparr>, s)"
    by (simp add: flat_then_def get_price_data_candles_of rs_def)
  have lrs: "length rs = 21" by (simp add: rs_def)
  have l: "2 \<le> length (dropna (add_indicators (rows (fst (get_price_data
      (Some (flat_then (12 / 10, 12 / 10))) s)))))"
    unfolding g by (simp add: length_trimmed lrs)
  have e: "open' (last (dropna (add_indicators rs))) = close (last (dropna (add_indicators rs)))"
    using trimmed_last [of rs] by (simp add: lrs) (simp add: rs_def row_of_def)
  have none: "fst (analyze_market (demo_config 10 3) (Some (flat_then (12 / 10, 12 / 10))) s) = None"
    using analyze_market_decides [OF l, of "demo_config 10 3"] e unfolding g by simp
  have vals: "orders s = []" "amount s = 22" "mm s = 1"
    by (simp_all add: s_def stake_rules loss_increment_10 init_def demo_config_def)
  have a: "fst (analyze_market (demo_config 10 3)
      (get_candles \<lparr>get_candles = Some (flat_then (12 / 10, 12 / 10)), get_balance = Some 1000,
         buy = Some (True, 7), check_win_v3 = Some (Finite (- 10))\<rparr>) s) = None"
    using none by simp
  from C9_no_signal_cycle [OF a] a vals
  show ?thesis unfolding s_def [symmetric] by simp
qed

end
